theory Spec2Isabelle
  imports Complex_Main "HOL-Library.Word" "HOL-Library.AList"
begin

section \<open>Federated GAN round logic (gans/gan\_training\_tf\_fns.py)\<close>

text \<open>
  The two round functions \<open>client_computation\<close> and \<open>server_computation\<close> and the two
  training-step factories are embedded as HOL functions. The mutable Keras models are
  passed in and returned (explicit state passing); every raise of the source is a value
  \<open>Inl e\<close>. What TensorFlow and the modules \<open>gans/gan_losses.py\<close> and
  \<open>utils/tensor_utils.py\<close> contribute is either a parameter (\<open>tf_env\<close>) or a definition
  marked as modelled from the specification.
\<close>

subsection \<open>Scalars and tensors\<close>

text \<open>
  Counters and example counts are int32 tensors (\<open>tf.constant(0)\<close>, \<open>tf.shape(x)[0]\<close>):
  32-bit words whose addition wraps; \<open>sint\<close> reads the signed value.
\<close>

type_synonym int32 = "32 word"

text \<open>
  A float32 value is modelled by the number it denotes: a real, one of the two
  infinities, or NaN. Rounding and the sign of zero are not modelled. The operations
  follow IEEE 754 on the special values.
\<close>

datatype f32 = Num real | PosInf | NegInf | NaN

fun is_finite :: "f32 \<Rightarrow> bool" where
  "is_finite (Num x) = True"
| "is_finite PosInf = False"
| "is_finite NegInf = False"
| "is_finite NaN = False"

fun f32_neg :: "f32 \<Rightarrow> f32" where
  "f32_neg (Num x) = Num (- x)"
| "f32_neg PosInf = NegInf"
| "f32_neg NegInf = PosInf"
| "f32_neg NaN = NaN"

fun f32_add :: "f32 \<Rightarrow> f32 \<Rightarrow> f32" where
  "f32_add (Num a) (Num b) = Num (a + b)"
| "f32_add (Num a) PosInf = PosInf"
| "f32_add (Num a) NegInf = NegInf"
| "f32_add (Num a) NaN = NaN"
| "f32_add PosInf (Num b) = PosInf"
| "f32_add PosInf PosInf = PosInf"
| "f32_add PosInf NegInf = NaN"
| "f32_add PosInf NaN = NaN"
| "f32_add NegInf (Num b) = NegInf"
| "f32_add NegInf PosInf = NaN"
| "f32_add NegInf NegInf = NegInf"
| "f32_add NegInf NaN = NaN"
| "f32_add NaN y = NaN"

definition f32_sub :: "f32 \<Rightarrow> f32 \<Rightarrow> f32" where
  "f32_sub a b = f32_add a (f32_neg b)"

definition inf_of_sign :: "real \<Rightarrow> f32" where
  "inf_of_sign s = (if s = 0 then NaN else if 0 < s then PosInf else NegInf)"

fun f32_mul :: "f32 \<Rightarrow> f32 \<Rightarrow> f32" where
  "f32_mul (Num a) (Num b) = Num (a * b)"
| "f32_mul (Num a) PosInf = inf_of_sign a"
| "f32_mul (Num a) NegInf = inf_of_sign (- a)"
| "f32_mul (Num a) NaN = NaN"
| "f32_mul PosInf (Num b) = inf_of_sign b"
| "f32_mul PosInf PosInf = PosInf"
| "f32_mul PosInf NegInf = NegInf"
| "f32_mul PosInf NaN = NaN"
| "f32_mul NegInf (Num b) = inf_of_sign (- b)"
| "f32_mul NegInf PosInf = NegInf"
| "f32_mul NegInf NegInf = PosInf"
| "f32_mul NegInf NaN = NaN"
| "f32_mul NaN y = NaN"

text \<open>\<open>tf.cast(n, tf.float32)\<close> of an int32 scalar.\<close>

definition cast_f32 :: "int32 \<Rightarrow> f32" where
  "cast_f32 n = Num (real_of_int (sint n))"

text \<open>
  A float tensor: its static shape and its elements in row-major order. A weight
  structure (\<open>model.weights\<close>, \<open>generator_weights\<close>, a weights delta) is a flat Python list
  of tensors, hence a \<open>tensor list\<close>.
\<close>

record tensor =
  shape :: "nat list"
  elems :: "f32 list"

definition zeros_like :: "tensor \<Rightarrow> tensor" where
  "zeros_like t = t\<lparr>elems := map (\<lambda>x. Num 0) (elems t)\<rparr>"

definition all_finite :: "tensor \<Rightarrow> bool" where
  "all_finite t = list_all is_finite (elems t)"

text \<open>
  A batch is a tensor of rank at least one, given as the list of its slices along the
  leading dimension: \<open>tf.shape(b)[0]\<close> is its length and \<open>b[0:n]\<close> is \<open>take n b\<close>.
  A dataset iterated to completion is the finite list of its batches.
\<close>

type_synonym 'x batch = "'x list"
type_synonym 'x dataset = "'x batch list"

definition batch_size :: "'x batch \<Rightarrow> int32" where
  "batch_size b = of_nat (length b)"

subsection \<open>Errors\<close>

datatype error =
    StructureError   \<comment> \<open>ValueError of tf.nest: the two structures differ\<close>
  | ShapeError       \<comment> \<open>ValueError / InvalidArgumentError: incompatible tensor shapes\<close>
  | KeyError string  \<comment> \<open>\<open>d[k] += v\<close> on a dict without key \<open>k\<close>\<close>
  | CapabilityError  \<comment> \<open>raised inside a loss function or the gradient computation\<close>

subsection \<open>Keras models and optimizers\<close>

text \<open>
  A \<open>tf.keras.Model\<close> is represented by \<open>model.weights\<close>: the ordered list of its
  variables, each with its current value and its \<open>trainable\<close> flag. The forward pass
  lives in the loss functions, which receive the models.
\<close>

record variable =
  val :: tensor
  trainable :: bool

type_synonym keras_model = "variable list"

text \<open>\<open>_weights(model)\<close>: \<open>[v.read_value() for v in model.weights]\<close>.\<close>

definition weights_read :: "keras_model \<Rightarrow> tensor list" where
  "weights_read model = map val model"

text \<open>\<open>model.trainable_variables\<close>, as the list of their current values.\<close>

definition trainable_variables :: "keras_model \<Rightarrow> tensor list" where
  "trainable_variables model = map val (filter trainable model)"

text \<open>
  \<open>tf.nest.map_structure(lambda a, b: a.assign(b), model.weights, ws)\<close>: tf.nest first
  compares the two structures (here: the lengths of the two lists), then every
  \<open>assign\<close> requires the shape of the value to be that of the variable.
\<close>

definition assign_weights :: "keras_model \<Rightarrow> tensor list \<Rightarrow> error + keras_model" where
  "assign_weights model ws =
     (if length ws \<noteq> length model then Inl StructureError
      else if list_all2 (\<lambda>a b. shape b = shape (val a)) model ws
      then Inr (map2 (\<lambda>a b. a\<lparr>val := b\<rparr>) model ws)
      else Inl ShapeError)"

text \<open>
  Writing new values into the trainable variables of a model, in order (what an
  optimizer does to its \<open>var_list\<close>); the other variables are left alone.
\<close>

fun assign_trainable :: "keras_model \<Rightarrow> tensor list \<Rightarrow> error + keras_model" where
  "assign_trainable [] [] = Inr []"
| "assign_trainable [] (t # ts) = Inl StructureError"
| "assign_trainable (v # vs) ts =
     (if trainable v then
        (case ts of
           [] \<Rightarrow> Inl StructureError
         | t # ts' \<Rightarrow>
             if shape t = shape (val v) then
               (case assign_trainable vs ts' of
                  Inl e \<Rightarrow> Inl e
                | Inr vs' \<Rightarrow> Inr (v\<lparr>val := t\<rparr> # vs'))
             else Inl ShapeError)
      else
        (case assign_trainable vs ts of
           Inl e \<Rightarrow> Inl e
         | Inr vs' \<Rightarrow> Inr (v # vs')))"

text \<open>
  A \<open>tf.keras.optimizers.Optimizer\<close> in its current state: \<open>apply_gradients\<close> takes the
  (gradient, variable) pairs and yields the new values of the variables, or raises.
\<close>

record optimizer =
  apply_gradients :: "(tensor \<times> tensor) list \<Rightarrow> error + tensor list"

text \<open>
  Plain stochastic gradient descent, \<open>tf.keras.optimizers.SGD(lr)\<close> without momentum:
  \<open>var := var - lr * grad\<close>, and a gradient whose shape is not the variable's is
  rejected.
\<close>

definition sgd_update :: "f32 \<Rightarrow> tensor \<times> tensor \<Rightarrow> tensor" where
  "sgd_update lr gv =
     (snd gv)\<lparr>elems := map2 (\<lambda>x g. f32_sub x (f32_mul lr g)) (elems (snd gv)) (elems (fst gv))\<rparr>"

definition SGD :: "f32 \<Rightarrow> optimizer" where
  "SGD lr = \<lparr>apply_gradients = (\<lambda>grads_and_vars.
     if list_all (\<lambda>gv. shape (fst gv) = shape (snd gv)) grads_and_vars
     then Inr (map (sgd_update lr) grads_and_vars)
     else Inl ShapeError)\<rparr>"

text \<open>
  The loss interface \<open>gan_losses.AbstractGanLossFns\<close>: scalar losses computed from the two
  models and the batches.
\<close>

record ('x, 'y) gan_loss_fns =
  generator_loss :: "keras_model \<Rightarrow> keras_model \<Rightarrow> 'x batch \<Rightarrow> error + f32"
  discriminator_loss :: "keras_model \<Rightarrow> keras_model \<Rightarrow> 'x batch \<Rightarrow> 'y batch \<Rightarrow> error + f32"

text \<open>
  What the functions below take from outside this file, as a parameter:
  \<^item> \<open>WassersteinGanLossFns\<close>: the constructor of \<open>gans/gan_losses.py\<close>, from the
    gradient-penalty coefficient to the loss functions;
  \<^item> \<open>gradient\<close>: TensorFlow's automatic differentiation of a loss closure with respect
    to a list of variables, the closure being given as a function of the values of
    those variables.
\<close>

record ('x, 'y) tf_env =
  WassersteinGanLossFns :: "f32 \<Rightarrow> ('x, 'y) gan_loss_fns"
  gradient :: "(tensor list \<Rightarrow> error + f32) \<Rightarrow> tensor list \<Rightarrow> error + tensor list"

text \<open>
  \<open>optimizer.minimize(loss, var_list)\<close>: compute the gradients of the closure, then
  \<open>apply_gradients\<close> on the zipped pairs.
\<close>

definition minimize ::
  "('x, 'y) tf_env \<Rightarrow> optimizer \<Rightarrow> (tensor list \<Rightarrow> error + f32) \<Rightarrow> tensor list
     \<Rightarrow> error + tensor list" where
  "minimize env opt loss var_list =
     (case gradient env loss var_list of
        Inl e \<Rightarrow> Inl e
      | Inr grads \<Rightarrow> apply_gradients opt (zip grads var_list))"

subsection \<open>The messages and the server state\<close>

text \<open>
  The three attrs classes. Field names of \<open>FromServer\<close> and of \<open>ClientOutput.counters\<close>
  carry a prefix, since \<open>ServerState\<close> has fields of the same names. A counters
  mapping is an \<open>OrderedDict\<close> from names to int32 scalars: an association list.
\<close>

type_synonym counters = "(string \<times> int32) list"

record FromServer =
  fs_generator_weights :: "tensor list"
  fs_discriminator_weights :: "tensor list"

record 'agg ServerState =
  generator_weights :: "tensor list"
  discriminator_weights :: "tensor list"
  counters :: counters
  aggregation_state :: 'agg

record ClientOutput =
  discriminator_weights_delta :: "tensor list"
  update_weight :: f32
  co_counters :: counters

subsection \<open>Training-step factories\<close>

type_synonym ('x, 'y) train_discriminator_fn =
  "keras_model \<Rightarrow> keras_model \<Rightarrow> 'x batch \<Rightarrow> 'y batch
     \<Rightarrow> error + (keras_model \<times> keras_model \<times> int32)"

type_synonym 'x train_generator_fn =
  "keras_model \<Rightarrow> keras_model \<Rightarrow> 'x batch \<Rightarrow> error + (keras_model \<times> keras_model \<times> int32)"

text \<open>
  \<open>create_train_generator_fn(gan_loss_fns, gen_optimizer)\<close>. The step returns the two
  models as it leaves them and \<open>tf.shape(generator_inputs)[0]\<close>.
\<close>

definition create_train_generator_fn ::
  "('x, 'y) tf_env \<Rightarrow> ('x, 'y) gan_loss_fns \<Rightarrow> optimizer \<Rightarrow> 'x train_generator_fn" where
  "create_train_generator_fn env gan_loss_fns gen_optimizer =
     (\<lambda>generator discriminator generator_inputs.
        let gen_loss = (\<lambda>vs. case assign_trainable generator vs of
                                 Inl e \<Rightarrow> Inl e
                               | Inr g \<Rightarrow> generator_loss gan_loss_fns g discriminator generator_inputs)
        in case minimize env gen_optimizer gen_loss (trainable_variables generator) of
             Inl e \<Rightarrow> Inl e
           | Inr vs \<Rightarrow>
               (case assign_trainable generator vs of
                  Inl e \<Rightarrow> Inl e
                | Inr generator' \<Rightarrow>
                    Inr (generator', discriminator, batch_size generator_inputs)))"

text \<open>
  \<open>create_train_discriminator_fn(gan_loss_fns, disc_optimizer)\<close>. The step returns
  \<open>tf.shape(real_data)[0]\<close>.
\<close>

definition create_train_discriminator_fn ::
  "('x, 'y) tf_env \<Rightarrow> ('x, 'y) gan_loss_fns \<Rightarrow> optimizer \<Rightarrow> ('x, 'y) train_discriminator_fn" where
  "create_train_discriminator_fn env gan_loss_fns disc_optimizer =
     (\<lambda>generator discriminator generator_inputs real_data.
        let disc_loss = (\<lambda>vs. case assign_trainable discriminator vs of
                                  Inl e \<Rightarrow> Inl e
                                | Inr d \<Rightarrow> discriminator_loss gan_loss_fns generator d
                                            generator_inputs real_data)
        in case minimize env disc_optimizer disc_loss (trainable_variables discriminator) of
             Inl e \<Rightarrow> Inl e
           | Inr vs \<Rightarrow>
               (case assign_trainable discriminator vs of
                  Inl e \<Rightarrow> Inl e
                | Inr discriminator' \<Rightarrow>
                    Inr (generator, discriminator', batch_size real_data)))"

subsection \<open>Numeric safety helper\<close>

text \<open>
  Modelled from the spec: \<open>tensor_utils.zero_all_if_any_non_finite\<close> lives in
  \<open>utils/tensor_utils.py\<close>, which is not among the sources. Section 4.1 of the
  specification: every element of every tensor is scanned for NaN/Inf; if any is found,
  every tensor is replaced by a same-shaped zero tensor and the flag is true; otherwise
  the structure is returned unchanged and the flag is false.
\<close>

definition zero_all_if_any_non_finite :: "tensor list \<Rightarrow> tensor list \<times> bool" where
  "zero_all_if_any_non_finite structure =
     (if list_all all_finite structure then (structure, False)
      else (map zeros_like structure, True))"

subsection \<open>Client round function\<close>

text \<open>
  \<open>tf.nest.map_structure(tf.subtract, xs, ys)\<close> on two lists of tensors. Broadcasting
  between different shapes is not modelled: such a pair is answered by \<open>ShapeError\<close>,
  and lemma \<open>client_computation_after_train\<close> shows that the client never gets there.
\<close>

definition tf_subtract :: "tensor \<Rightarrow> tensor \<Rightarrow> tensor" where
  "tf_subtract a b = a\<lparr>elems := map2 f32_sub (elems a) (elems b)\<rparr>"

definition subtract_structure :: "tensor list \<Rightarrow> tensor list \<Rightarrow> error + tensor list" where
  "subtract_structure xs ys =
     (if length xs \<noteq> length ys then Inl StructureError
      else if list_all2 (\<lambda>a b. shape a = shape b) xs ys then Inr (map2 tf_subtract xs ys)
      else Inl ShapeError)"

text \<open>
  The loop of lines 138--149 over the zipped dataset. The last component of the state is
  a log of the batches each training step was called on, in order; nothing else reads it.
\<close>

fun client_loop ::
  "('x, 'y) train_discriminator_fn \<Rightarrow> keras_model \<Rightarrow> keras_model
     \<Rightarrow> ('x batch \<times> 'y batch) list \<Rightarrow> int32 \<Rightarrow> ('x batch \<times> 'y batch) list
     \<Rightarrow> error + (keras_model \<times> keras_model \<times> int32 \<times> ('x batch \<times> 'y batch) list)" where
  "client_loop train_fn generator discriminator [] num_examples steps =
     Inr (generator, discriminator, num_examples, steps)"
| "client_loop train_fn generator discriminator ((gen_inputs, real_data) # rest) num_examples steps =
     (let min_batch_size = min (length real_data) (length gen_inputs);
          real_data = take min_batch_size real_data;
          gen_inputs = take min_batch_size gen_inputs
      in case train_fn generator discriminator gen_inputs real_data of
           Inl e \<Rightarrow> Inl e
         | Inr (generator', discriminator', n) \<Rightarrow>
             client_loop train_fn generator' discriminator' rest (num_examples + n)
               (steps @ [(gen_inputs, real_data)]))"

text \<open>
  Lines 125--149 of \<open>client_computation\<close>: load the broadcast weights, build the training
  step, run the loop. The learning rate is \<open>0.0005\<close>.
\<close>

definition client_train ::
  "('x, 'y) tf_env \<Rightarrow> 'x dataset \<Rightarrow> 'y dataset \<Rightarrow> FromServer \<Rightarrow> keras_model \<Rightarrow> keras_model
     \<Rightarrow> error + (keras_model \<times> keras_model \<times> int32 \<times> ('x batch \<times> 'y batch) list)" where
  "client_train env gen_inputs_ds real_data_ds from_server generator discriminator =
     (case assign_weights generator (fs_generator_weights from_server) of
        Inl e \<Rightarrow> Inl e
      | Inr generator \<Rightarrow>
     (case assign_weights discriminator (fs_discriminator_weights from_server) of
        Inl e \<Rightarrow> Inl e
      | Inr discriminator \<Rightarrow>
     (let gan_loss_fns = WassersteinGanLossFns env (Num 10);
          disc_optimizer = SGD (Num (5 / 10000));
          tmp_train_discriminator_fn =
            create_train_discriminator_fn env gan_loss_fns disc_optimizer;
          num_examples = 0;
          gen_inputs_and_real_data = zip gen_inputs_ds real_data_ds
      in client_loop tmp_train_discriminator_fn generator discriminator
           gen_inputs_and_real_data num_examples [])))"

text \<open>
  \<open>client_computation\<close>: the training above, then lines 151--166. The result carries the
  two models as the call leaves them. \<open>tf.equal(has_non_finite_delta, 0)\<close> compares the
  flag, read as a number, with zero.
\<close>

definition client_computation ::
  "('x, 'y) tf_env \<Rightarrow> 'x dataset \<Rightarrow> 'y dataset \<Rightarrow> FromServer \<Rightarrow> keras_model \<Rightarrow> keras_model
     \<Rightarrow> ('x, 'y) train_discriminator_fn
     \<Rightarrow> error + (ClientOutput \<times> keras_model \<times> keras_model)" where
  "client_computation env gen_inputs_ds real_data_ds from_server generator discriminator
       train_discriminator_fn =
     (case client_train env gen_inputs_ds real_data_ds from_server generator discriminator of
        Inl e \<Rightarrow> Inl e
      | Inr (generator, discriminator, num_examples, steps) \<Rightarrow>
     (case subtract_structure (weights_read discriminator)
             (fs_discriminator_weights from_server) of
        Inl e \<Rightarrow> Inl e
      | Inr weights_delta \<Rightarrow>
     (let (weights_delta, has_non_finite_delta) = zero_all_if_any_non_finite weights_delta;
          update_weight = cast_f32 num_examples;
          update_weight = (if (of_bool has_non_finite_delta :: int) = 0 then update_weight
                           else Num 0)
      in Inr (\<lparr>discriminator_weights_delta = weights_delta,
               update_weight = update_weight,
               co_counters = [(''num_discriminator_train_examples'', num_examples)]\<rparr>,
              generator, discriminator))))"

subsection \<open>State initialization\<close>

definition server_initial_state :: "keras_model \<Rightarrow> keras_model \<Rightarrow> unit ServerState" where
  "server_initial_state generator discriminator =
     \<lparr>generator_weights = weights_read generator,
      discriminator_weights = weights_read discriminator,
      counters = [(''num_discriminator_train_examples'', 0),
                  (''num_generator_train_examples'', 0),
                  (''num_rounds'', 0)],
      aggregation_state = ()\<rparr>"

subsection \<open>Server round function\<close>

text \<open>\<open>-1.0 * x\<close> for a tensor \<open>x\<close>.\<close>

definition tf_scale :: "f32 \<Rightarrow> tensor \<Rightarrow> tensor" where
  "tf_scale c t = t\<lparr>elems := map (f32_mul c) (elems t)\<rparr>"

text \<open>
  Lines 216--227 of \<open>server_computation\<close>: load the state's weights into the models and
  update the server discriminator. \<open>tf.nest.assert_same_structure\<close> compares how the two
  arguments are nested, that is the lengths of the two lists; it does not look at the
  shapes of the tensors. The values the optimizer yields are written into the variables
  of the discriminator.
\<close>

definition server_disc_update ::
  "('agg, 'z) ServerState_scheme \<Rightarrow> ClientOutput \<Rightarrow> keras_model \<Rightarrow> keras_model \<Rightarrow> optimizer
     \<Rightarrow> error + (keras_model \<times> keras_model)" where
  "server_disc_update server_state client_output generator discriminator
       server_disc_update_optimizer =
     (case assign_weights generator (generator_weights server_state) of
        Inl e \<Rightarrow> Inl e
      | Inr generator \<Rightarrow>
     (case assign_weights discriminator (discriminator_weights server_state) of
        Inl e \<Rightarrow> Inl e
      | Inr discriminator \<Rightarrow>
     (let delta = discriminator_weights_delta client_output
      in if length delta \<noteq> length discriminator then Inl StructureError
         else
           (let grads_and_vars =
                  map2 (\<lambda>x v. (tf_scale (Num (- 1)) x, val v)) delta discriminator
            in case apply_gradients server_disc_update_optimizer grads_and_vars of
                 Inl e \<Rightarrow> Inl e
               | Inr new_values \<Rightarrow>
                   (case assign_weights discriminator new_values of
                      Inl e \<Rightarrow> Inl e
                    | Inr discriminator \<Rightarrow> Inr (generator, discriminator))))))"

text \<open>\<open>counters[k] += v\<close> on an \<open>OrderedDict\<close>: a missing key raises \<open>KeyError\<close>.\<close>

definition counter_add :: "counters \<Rightarrow> string \<Rightarrow> int32 \<Rightarrow> error + counters" where
  "counter_add c k v =
     (case map_of c k of
        None \<Rightarrow> Inl (KeyError k)
      | Some old \<Rightarrow> Inr (AList.update k (old + v) c))"

text \<open>Lines 229--230: \<open>for k, v in client_output.counters.items(): counters[k] += v\<close>.\<close>

fun add_client_counters :: "counters \<Rightarrow> counters \<Rightarrow> error + counters" where
  "add_client_counters c [] = Inr c"
| "add_client_counters c ((k, v) # kvs) =
     (case counter_add c k v of
        Inl e \<Rightarrow> Inl e
      | Inr c' \<Rightarrow> add_client_counters c' kvs)"

text \<open>Lines 243--245: one generator step per batch of \<open>gen_inputs_ds\<close>.\<close>

fun server_loop ::
  "'x train_generator_fn \<Rightarrow> keras_model \<Rightarrow> keras_model \<Rightarrow> 'x dataset \<Rightarrow> int32
     \<Rightarrow> error + (keras_model \<times> keras_model \<times> int32)" where
  "server_loop train_fn generator discriminator [] gen_examples_this_round =
     Inr (generator, discriminator, gen_examples_this_round)"
| "server_loop train_fn generator discriminator (gen_inputs # rest) gen_examples_this_round =
     (case train_fn generator discriminator gen_inputs of
        Inl e \<Rightarrow> Inl e
      | Inr (generator', discriminator', n) \<Rightarrow>
          server_loop train_fn generator' discriminator' rest (gen_examples_this_round + n))"

text \<open>
  \<open>server_computation\<close> on values: the state is passed in and the new state returned,
  together with the two models as the call leaves them. The copy made by
  \<open>attr.evolve\<close> is invisible here; the version over a store of objects follows
  below. The learning rate of the generator optimizer is \<open>0.005\<close>.
\<close>

definition server_computation ::
  "('x, 'y) tf_env \<Rightarrow> 'agg ServerState \<Rightarrow> 'x dataset \<Rightarrow> ClientOutput \<Rightarrow> keras_model
     \<Rightarrow> keras_model \<Rightarrow> optimizer \<Rightarrow> 'x train_generator_fn \<Rightarrow> 'agg
     \<Rightarrow> error + ('agg ServerState \<times> keras_model \<times> keras_model)" where
  "server_computation env server_state gen_inputs_ds client_output generator discriminator
       server_disc_update_optimizer train_generator_fn new_aggregation_state =
     (let server_state = server_state\<lparr>counters := counters server_state\<rparr>
      in case server_disc_update server_state client_output generator discriminator
                server_disc_update_optimizer of
           Inl e \<Rightarrow> Inl e
         | Inr (generator, discriminator) \<Rightarrow>
     (case add_client_counters (counters server_state) (co_counters client_output) of
        Inl e \<Rightarrow> Inl e
      | Inr c \<Rightarrow>
     (let server_state = server_state\<lparr>counters := c\<rparr>;
          server_state = server_state\<lparr>aggregation_state := new_aggregation_state\<rparr>;
          gen_examples_this_round = 0;
          gan_loss_fns = WassersteinGanLossFns env (Num 10);
          gen_optimizer = SGD (Num (5 / 1000));
          tmp_train_generator_fn = create_train_generator_fn env gan_loss_fns gen_optimizer
      in case server_loop tmp_train_generator_fn generator discriminator gen_inputs_ds
                gen_examples_this_round of
           Inl e \<Rightarrow> Inl e
         | Inr (generator, discriminator, gen_examples_this_round) \<Rightarrow>
     (case counter_add (counters server_state) ''num_generator_train_examples''
             gen_examples_this_round of
        Inl e \<Rightarrow> Inl e
      | Inr c \<Rightarrow>
     (case counter_add c ''num_rounds'' 1 of
        Inl e \<Rightarrow> Inl e
      | Inr c \<Rightarrow>
          Inr (server_state\<lparr>counters := c,
                            generator_weights := weights_read generator,
                            discriminator_weights := weights_read discriminator\<rparr>,
               generator, discriminator))))))"

subsection \<open>Server round function over a store of objects\<close>

text \<open>
  \<open>attr.evolve\<close> and the in-place updates of \<open>server_computation\<close> act on Python objects.
  To say which objects a call writes, the \<open>ServerState\<close> instances, the counters
  dictionaries and the weight lists live in a store and are addressed by their index; an
  instance holds the addresses of its dictionary and of its two weight lists, and the
  aggregation state as a value. Creating an object appends it to the store.
\<close>

record 'agg state_object =
  obj_generator_weights :: nat
  obj_discriminator_weights :: nat
  obj_counters :: nat
  obj_aggregation_state :: 'agg

record 'agg store =
  objects :: "'agg state_object list"
  dicts :: "counters list"
  weight_lists :: "tensor list list"

text \<open>The value of the \<open>ServerState\<close> instance at an address.\<close>

definition state_value :: "'agg store \<Rightarrow> nat \<Rightarrow> 'agg ServerState" where
  "state_value h a =
     (let obj = objects h ! a
      in \<lparr>generator_weights = weight_lists h ! obj_generator_weights obj,
          discriminator_weights = weight_lists h ! obj_discriminator_weights obj,
          counters = dicts h ! obj_counters obj,
          aggregation_state = obj_aggregation_state obj\<rparr>)"

definition alloc_dict :: "'agg store \<Rightarrow> counters \<Rightarrow> 'agg store \<times> nat" where
  "alloc_dict h c = (h\<lparr>dicts := dicts h @ [c]\<rparr>, length (dicts h))"

definition alloc_weight_list :: "'agg store \<Rightarrow> tensor list \<Rightarrow> 'agg store \<times> nat" where
  "alloc_weight_list h ws = (h\<lparr>weight_lists := weight_lists h @ [ws]\<rparr>, length (weight_lists h))"

definition alloc_object :: "'agg store \<Rightarrow> 'agg state_object \<Rightarrow> 'agg store \<times> nat" where
  "alloc_object h obj = (h\<lparr>objects := objects h @ [obj]\<rparr>, length (objects h))"

text \<open>\<open>server_state.counters[k] += v\<close>: the dictionary the instance refers to is updated in place.\<close>

definition counter_add_store ::
  "'agg store \<Rightarrow> nat \<Rightarrow> string \<Rightarrow> int32 \<Rightarrow> 'agg store \<times> error option" where
  "counter_add_store h server_state k v =
     (let c = obj_counters (objects h ! server_state)
      in case counter_add (dicts h ! c) k v of
           Inl e \<Rightarrow> (h, Some e)
         | Inr c' \<Rightarrow> (h\<lparr>dicts := (dicts h)[c := c']\<rparr>, None))"

fun add_client_counters_store ::
  "'agg store \<Rightarrow> nat \<Rightarrow> counters \<Rightarrow> 'agg store \<times> error option" where
  "add_client_counters_store h server_state [] = (h, None)"
| "add_client_counters_store h server_state ((k, v) # kvs) =
     (case counter_add_store h server_state k v of
        (h', Some e) \<Rightarrow> (h', Some e)
      | (h', None) \<Rightarrow> add_client_counters_store h' server_state kvs)"

text \<open>Attribute assignments \<open>server_state.field = value\<close> on the instance at an address.\<close>

definition set_aggregation_state :: "'agg store \<Rightarrow> nat \<Rightarrow> 'agg \<Rightarrow> 'agg store" where
  "set_aggregation_state h a s =
     h\<lparr>objects := (objects h)[a := (objects h ! a)\<lparr>obj_aggregation_state := s\<rparr>]\<rparr>"

definition set_generator_weights :: "'agg store \<Rightarrow> nat \<Rightarrow> nat \<Rightarrow> 'agg store" where
  "set_generator_weights h a ws =
     h\<lparr>objects := (objects h)[a := (objects h ! a)\<lparr>obj_generator_weights := ws\<rparr>]\<rparr>"

definition set_discriminator_weights :: "'agg store \<Rightarrow> nat \<Rightarrow> nat \<Rightarrow> 'agg store" where
  "set_discriminator_weights h a ws =
     h\<lparr>objects := (objects h)[a := (objects h ! a)\<lparr>obj_discriminator_weights := ws\<rparr>]\<rparr>"

text \<open>
  \<open>server_computation\<close> with its \<open>server_state\<close> argument given by address. The result is
  the store as the call leaves it (also when it raises) and the address of the returned
  instance with the two models.
\<close>

definition server_computation_store ::
  "('x, 'y) tf_env \<Rightarrow> 'agg store \<Rightarrow> nat \<Rightarrow> 'x dataset \<Rightarrow> ClientOutput \<Rightarrow> keras_model
     \<Rightarrow> keras_model \<Rightarrow> optimizer \<Rightarrow> 'x train_generator_fn \<Rightarrow> 'agg
     \<Rightarrow> 'agg store \<times> (error + (nat \<times> keras_model \<times> keras_model))" where
  "server_computation_store env h server_state gen_inputs_ds client_output generator
       discriminator server_disc_update_optimizer train_generator_fn new_aggregation_state =
     (let old = objects h ! server_state;
          (h, copy) = alloc_dict h (dicts h ! obj_counters old);
          (h, server_state) = alloc_object h (old\<lparr>obj_counters := copy\<rparr>)
      in case server_disc_update (state_value h server_state) client_output generator
                discriminator server_disc_update_optimizer of
           Inl e \<Rightarrow> (h, Inl e)
         | Inr (generator, discriminator) \<Rightarrow>
     (case add_client_counters_store h server_state (co_counters client_output) of
        (h, Some e) \<Rightarrow> (h, Inl e)
      | (h, None) \<Rightarrow>
     (let h = set_aggregation_state h server_state new_aggregation_state;
          gen_examples_this_round = 0;
          gan_loss_fns = WassersteinGanLossFns env (Num 10);
          gen_optimizer = SGD (Num (5 / 1000));
          tmp_train_generator_fn = create_train_generator_fn env gan_loss_fns gen_optimizer
      in case server_loop tmp_train_generator_fn generator discriminator gen_inputs_ds
                gen_examples_this_round of
           Inl e \<Rightarrow> (h, Inl e)
         | Inr (generator, discriminator, gen_examples_this_round) \<Rightarrow>
     (case counter_add_store h server_state ''num_generator_train_examples''
             gen_examples_this_round of
        (h, Some e) \<Rightarrow> (h, Inl e)
      | (h, None) \<Rightarrow>
     (case counter_add_store h server_state ''num_rounds'' 1 of
        (h, Some e) \<Rightarrow> (h, Inl e)
      | (h, None) \<Rightarrow>
     (let (h, gw) = alloc_weight_list h (weights_read generator);
          h = set_generator_weights h server_state gw;
          (h, dw) = alloc_weight_list h (weights_read discriminator);
          h = set_discriminator_weights h server_state dw
      in (h, Inr (server_state, generator, discriminator))))))))"

subsection \<open>Notions used to state the properties\<close>

text \<open>
  The smaller of the two leading dimensions of a pair of batches, and the pair cut to it.
\<close>

definition min_batch_size :: "'x batch \<times> 'y batch \<Rightarrow> nat" where
  "min_batch_size p = min (length (snd p)) (length (fst p))"

definition truncate_pair :: "'x batch \<times> 'y batch \<Rightarrow> 'x batch \<times> 'y batch" where
  "truncate_pair p = (take (min_batch_size p) (fst p), take (min_batch_size p) (snd p))"

text \<open>
  The delta the client computes before the numeric safety helper sees it: the live
  discriminator weights minus the broadcast ones.
\<close>

definition raw_delta :: "keras_model \<Rightarrow> FromServer \<Rightarrow> tensor list" where
  "raw_delta discriminator from_server =
     map2 tf_subtract (weights_read discriminator) (fs_discriminator_weights from_server)"

text \<open>
  The client output's own counter of a given name (0 if it has none), the number of
  examples in a dataset, and what lines 247--249 add to the counter of a given name.
\<close>

definition client_counter :: "ClientOutput \<Rightarrow> string \<Rightarrow> int32" where
  "client_counter client_output k =
     (case map_of (co_counters client_output) k of None \<Rightarrow> 0 | Some v \<Rightarrow> v)"

definition examples_in :: "'x dataset \<Rightarrow> nat" where
  "examples_in ds = sum_list (map length ds)"

definition round_increment :: "'x dataset \<Rightarrow> string \<Rightarrow> int32" where
  "round_increment gen_inputs_ds k =
     (if k = ''num_generator_train_examples'' then of_nat (examples_in gen_inputs_ds) else 0)
     + (if k = ''num_rounds'' then 1 else 0)"

text \<open>The counter of a given name in the state a call returned, if it returned one.\<close>

definition returned_counter ::
  "string \<Rightarrow> error + ('agg ServerState \<times> keras_model \<times> keras_model) \<Rightarrow> int32 option" where
  "returned_counter k result =
     (case result of Inl e \<Rightarrow> None | Inr (st', g, d) \<Rightarrow> map_of (counters st') k)"

text \<open>\<open>w + lr * x\<close> and \<open>w + x\<close> on tensors, element by element.\<close>

definition add_scaled :: "f32 \<Rightarrow> tensor \<Rightarrow> tensor \<Rightarrow> tensor" where
  "add_scaled lr w x = w\<lparr>elems := map2 (\<lambda>a b. f32_add a (f32_mul lr b)) (elems w) (elems x)\<rparr>"

definition tf_add :: "tensor \<Rightarrow> tensor \<Rightarrow> tensor" where
  "tf_add w x = w\<lparr>elems := map2 f32_add (elems w) (elems x)\<rparr>"

text \<open>
  \<open>writes_fresh h0 h a\<close>: store \<open>h\<close> has every object of \<open>h0\<close> as it was, and the
  instance at \<open>a\<close> and its counters dictionary were created after \<open>h0\<close>.
\<close>

definition writes_fresh :: "'agg store \<Rightarrow> 'agg store \<Rightarrow> nat \<Rightarrow> bool" where
  "writes_fresh h0 h a \<longleftrightarrow>
     take (length (objects h0)) (objects h) = objects h0 \<and>
     take (length (dicts h0)) (dicts h) = dicts h0 \<and>
     take (length (weight_lists h0)) (weight_lists h) = weight_lists h0 \<and>
     length (weight_lists h0) \<le> length (weight_lists h) \<and>
     length (objects h0) \<le> a \<and> a < length (objects h) \<and>
     length (dicts h0) \<le> obj_counters (objects h ! a) \<and>
     obj_counters (objects h ! a) < length (dicts h)"

text \<open>The instance at address \<open>a\<close> and the objects it refers to exist in the store.\<close>

definition allocated :: "'agg store \<Rightarrow> nat \<Rightarrow> bool" where
  "allocated h a \<longleftrightarrow>
     a < length (objects h) \<and>
     obj_counters (objects h ! a) < length (dicts h) \<and>
     obj_generator_weights (objects h ! a) < length (weight_lists h) \<and>
     obj_discriminator_weights (objects h ! a) < length (weight_lists h)"

subsection \<open>Concrete instances\<close>

text \<open>
  A custom optimizer, legal for the \<open>server_disc_update_optimizer\<close> parameter, whose step
  is written \<open>var.assign(var - lr * grad)\<close>: the subtraction broadcasts a gradient with a
  single element against a variable of any shape.
\<close>

definition broadcasting_sgd :: "f32 \<Rightarrow> optimizer" where
  "broadcasting_sgd lr = \<lparr>apply_gradients = (\<lambda>grads_and_vars.
     if list_all (\<lambda>gv. shape (fst gv) = shape (snd gv) \<or> length (elems (fst gv)) = 1)
          grads_and_vars
     then Inr (map (\<lambda>gv. if shape (fst gv) = shape (snd gv) then sgd_update lr gv
                           else (snd gv)\<lparr>elems :=
                                  map (\<lambda>x. f32_sub x (f32_mul lr (hd (elems (fst gv)))))
                                    (elems (snd gv))\<rparr>)
                grads_and_vars)
     else Inl ShapeError)\<rparr>"

text \<open>
  An environment with constant losses and a gradient that runs the loss closure and
  then yields ones, two small models, and messages and states for them.
\<close>

definition ones_like :: "tensor \<Rightarrow> tensor" where
  "ones_like t = t\<lparr>elems := map (\<lambda>x. Num 1) (elems t)\<rparr>"

definition demo_env :: "(nat, nat) tf_env" where
  "demo_env =
     \<lparr>WassersteinGanLossFns = (\<lambda>c. \<lparr>generator_loss = (\<lambda>g d x. Inr (Num 0)),
                                       discriminator_loss = (\<lambda>g d x y. Inr c)\<rparr>),
      gradient = (\<lambda>loss vs. case loss vs of
                                    Inl e \<Rightarrow> Inl e
                                  | Inr l \<Rightarrow> Inr (map ones_like vs))\<rparr>"

text \<open>The same environment with other loss functions for every other coefficient.\<close>

definition demo_env_other :: "(nat, nat) tf_env" where
  "demo_env_other =
     demo_env\<lparr>WassersteinGanLossFns :=
       (\<lambda>c. if c = Num 10 then WassersteinGanLossFns demo_env c
             else \<lparr>generator_loss = (\<lambda>g d x. Inl CapabilityError),
                   discriminator_loss = (\<lambda>g d x y. Inl CapabilityError)\<rparr>)\<rparr>"

definition demo_generator :: keras_model where
  "demo_generator = [\<lparr>val = \<lparr>shape = [1], elems = [Num 0]\<rparr>, trainable = True\<rparr>]"

definition demo_discriminator :: keras_model where
  "demo_discriminator =
     [\<lparr>val = \<lparr>shape = [2], elems = [Num 0, Num 0]\<rparr>, trainable = True\<rparr>,
      \<lparr>val = \<lparr>shape = [1], elems = [Num 0]\<rparr>, trainable = False\<rparr>]"

definition demo_from_server :: FromServer where
  "demo_from_server =
     \<lparr>fs_generator_weights = [\<lparr>shape = [1], elems = [Num 3]\<rparr>],
      fs_discriminator_weights =
        [\<lparr>shape = [2], elems = [Num 1, PosInf]\<rparr>, \<lparr>shape = [1], elems = [Num 5]\<rparr>]\<rparr>"

definition finite_from_server :: FromServer where
  "finite_from_server =
     \<lparr>fs_generator_weights = [\<lparr>shape = [1], elems = [Num 3]\<rparr>],
      fs_discriminator_weights =
        [\<lparr>shape = [2], elems = [Num 1, Num 4]\<rparr>, \<lparr>shape = [1], elems = [Num 5]\<rparr>]\<rparr>"

definition demo_state :: "unit ServerState" where
  "demo_state =
     \<lparr>generator_weights = [\<lparr>shape = [1], elems = [Num 3]\<rparr>],
      discriminator_weights =
        [\<lparr>shape = [2], elems = [Num 1, NegInf]\<rparr>, \<lparr>shape = [1], elems = [Num 5]\<rparr>],
      counters = [(''num_discriminator_train_examples'', 10),
                  (''num_generator_train_examples'', 20),
                  (''num_rounds'', 4)],
      aggregation_state = ()\<rparr>"

definition zero_client_output :: ClientOutput where
  "zero_client_output =
     \<lparr>discriminator_weights_delta =
        [\<lparr>shape = [2], elems = [Num 0, Num 0]\<rparr>, \<lparr>shape = [1], elems = [Num 0]\<rparr>],
      update_weight = Num 0,
      co_counters = [(''num_discriminator_train_examples'', 0)]\<rparr>"

definition scalar_delta_output :: ClientOutput where
  "scalar_delta_output =
     \<lparr>discriminator_weights_delta =
        [\<lparr>shape = [], elems = [Num 1]\<rparr>, \<lparr>shape = [1], elems = [Num 0]\<rparr>],
      update_weight = Num 7,
      co_counters = [(''num_discriminator_train_examples'', 7)]\<rparr>"

definition rounds_client_output :: ClientOutput where
  "rounds_client_output = zero_client_output\<lparr>co_counters := [(''num_rounds'', 5)]\<rparr>"

definition seven_client_output :: ClientOutput where
  "seven_client_output =
     zero_client_output\<lparr>co_counters := [(''num_discriminator_train_examples'', 7)]\<rparr>"

definition new_metric_output :: ClientOutput where
  "new_metric_output = zero_client_output\<lparr>co_counters := [(''new_metric'', 1)]\<rparr>"

definition demo_store :: "unit store" where
  "demo_store =
     \<lparr>objects = [\<lparr>obj_generator_weights = 0, obj_discriminator_weights = 1,
                  obj_counters = 0, obj_aggregation_state = ()\<rparr>],
      dicts = [counters demo_state],
      weight_lists = [generator_weights demo_state, discriminator_weights demo_state]\<rparr>"

section \<open>Properties\<close>

subsection \<open>Assignments and training steps\<close>

lemma assign_weights_Inr:
  assumes "assign_weights m ws = Inr m'"
  shows "weights_read m' = ws" and "map trainable m' = map trainable m"
    and "length m' = length m" and "map shape ws = map (\<lambda>v. shape (val v)) m"
proof -
  from assms have len: "length m = length ws"
    and sh: "list_all2 (\<lambda>a b. shape b = shape (val a)) m ws"
    and m': "m' = map2 (\<lambda>a b. a\<lparr>val := b\<rparr>) m ws"
    by (auto simp: assign_weights_def split: if_splits)
  from len show "weights_read m' = ws" unfolding m' weights_read_def
    by (induction m ws rule: list_induct2) simp_all
  from len show "map trainable m' = map trainable m" unfolding m'
    by (induction m ws rule: list_induct2) simp_all
  from len show "length m' = length m" unfolding m' by simp
  from sh show "map shape ws = map (\<lambda>v. shape (val v)) m"
    by (induction m ws rule: list_all2_induct) simp_all
qed

lemma assign_trainable_Inr:
  "assign_trainable m ts = Inr m' \<Longrightarrow>
     map trainable m' = map trainable m \<and>
     map (\<lambda>v. shape (val v)) m' = map (\<lambda>v. shape (val v)) m"
proof (induction m ts arbitrary: m' rule: assign_trainable.induct)
  case 1
  then show ?case by simp
next
  case (2 t ts)
  then show ?case by simp
next
  case (3 v vs ts)
  then show ?case
    by (auto split: if_splits list.splits sum.splits)
qed

lemma min_batch_size_pair: "min_batch_size (gi, rd) = min (length rd) (length gi)"
  by (simp add: min_batch_size_def)

lemma truncate_pair_pair:
  "truncate_pair (gi, rd) =
     (take (min (length rd) (length gi)) gi, take (min (length rd) (length gi)) rd)"
  by (simp add: truncate_pair_def min_batch_size_def)

lemma disc_step_Inr:
  assumes "create_train_discriminator_fn env L opt g d gi rd = Inr (g', d', n)"
  shows "g' = g" and "n = batch_size rd"
    and "map trainable d' = map trainable d"
    and "map (\<lambda>v. shape (val v)) d' = map (\<lambda>v. shape (val v)) d"
  using assms assign_trainable_Inr [of d _ d']
  by (auto simp: create_train_discriminator_fn_def split: sum.splits)

lemma client_loop_Inr:
  "client_loop (create_train_discriminator_fn env L opt) g d pairs n steps = Inr (g', d', n', steps')
   \<Longrightarrow> g' = g \<and> map trainable d' = map trainable d \<and>
       map (\<lambda>v. shape (val v)) d' = map (\<lambda>v. shape (val v)) d \<and>
       n' = n + of_nat (sum_list (map min_batch_size pairs)) \<and>
       steps' = steps @ map truncate_pair pairs"
proof (induction pairs arbitrary: g d n steps)
  case Nil
  then show ?case by simp
next
  case (Cons p pairs)
  obtain gi rd where p: "p = (gi, rd)" by (cases p)
  let ?m = "min (length rd) (length gi)"
  from Cons.prems p obtain g1 d1 k where
    step: "create_train_discriminator_fn env L opt g d (take ?m gi) (take ?m rd) = Inr (g1, d1, k)"
    and rest: "client_loop (create_train_discriminator_fn env L opt) g1 d1 pairs (n + k)
                 (steps @ [(take ?m gi, take ?m rd)]) = Inr (g', d', n', steps')"
    by (auto simp: Let_def split: sum.splits)
  from disc_step_Inr [OF step] have g1: "g1 = g" and k: "k = batch_size (take ?m rd)"
    and tr: "map trainable d1 = map trainable d"
    and sh: "map (\<lambda>v. shape (val v)) d1 = map (\<lambda>v. shape (val v)) d" by simp_all
  from Cons.IH [OF rest] g1 k tr sh p show ?case
    by (simp add: batch_size_def min_batch_size_pair truncate_pair_pair add.assoc)
qed

subsection \<open>The client round\<close>

lemma same_shapes_iff:
  "list_all2 (\<lambda>a b. f a = g b) xs ys \<longleftrightarrow> map f xs = map g ys"
proof -
  have "list_all2 (\<lambda>a b. f a = g b) xs ys \<longleftrightarrow> list_all2 (=) (map f xs) (map g ys)"
    by (simp add: list_all2_map1 list_all2_map2)
  then show ?thesis by (simp add: list.rel_eq)
qed

lemma client_train_Inr:
  assumes "client_train env gi rd fs g d = Inr (g', d', n, steps)"
  shows "weights_read g' = fs_generator_weights fs"
    and "map trainable g' = map trainable g"
    and "map trainable d' = map trainable d"
    and "map (\<lambda>v. shape (val v)) d' = map shape (fs_discriminator_weights fs)"
    and "n = of_nat (sum_list (map min_batch_size (zip gi rd)))"
    and "steps = map truncate_pair (zip gi rd)"
proof -
  from assms obtain g0 d0 where
    g0: "assign_weights g (fs_generator_weights fs) = Inr g0"
    and d0: "assign_weights d (fs_discriminator_weights fs) = Inr d0"
    and loop: "client_loop (create_train_discriminator_fn env (WassersteinGanLossFns env (Num 10))
                 (SGD (Num (5 / 10000)))) g0 d0 (zip gi rd) 0 [] = Inr (g', d', n, steps)"
    by (auto simp: client_train_def split: sum.splits)
  note L = client_loop_Inr [OF loop]
  note G = assign_weights_Inr [OF g0]
  note D = assign_weights_Inr [OF d0]
  from L G show "weights_read g' = fs_generator_weights fs" by simp
  from L G show "map trainable g' = map trainable g" by simp
  from L D show "map trainable d' = map trainable d" by simp
  have "map shape (weights_read d0) = map (\<lambda>v. shape (val v)) d0"
    by (simp add: weights_read_def comp_def)
  with L D(1) show "map (\<lambda>v. shape (val v)) d' = map shape (fs_discriminator_weights fs)"
    by simp
  from L show "n = of_nat (sum_list (map min_batch_size (zip gi rd)))" by simp
  from L show "steps = map truncate_pair (zip gi rd)" by simp
qed

lemma client_computation_after_train:
  assumes "client_train env gi rd fs g d = Inr (g', d', n, steps)"
  shows "client_computation env gi rd fs g d f =
     Inr (\<lparr>discriminator_weights_delta = fst (zero_all_if_any_non_finite (raw_delta d' fs)),
           update_weight = (if snd (zero_all_if_any_non_finite (raw_delta d' fs)) then Num 0
                            else cast_f32 n),
           co_counters = [(''num_discriminator_train_examples'', n)]\<rparr>, g', d')"
proof -
  from client_train_Inr(4) [OF assms]
  have "map shape (weights_read d') = map shape (fs_discriminator_weights fs)"
    by (simp add: weights_read_def comp_def)
  then have "subtract_structure (weights_read d') (fs_discriminator_weights fs)
               = Inr (raw_delta d' fs)"
    by (auto simp: subtract_structure_def raw_delta_def same_shapes_iff
             dest: map_eq_imp_length_eq)
  with assms show ?thesis
    by (simp add: client_computation_def split_beta Let_def)
qed

lemma shape_zeros_like: "shape (zeros_like t) = shape t"
  by (simp add: zeros_like_def)

lemma f32_sub_self: "is_finite (f32_sub x x) \<Longrightarrow> f32_sub x x = Num 0"
  by (cases x) (simp_all add: f32_sub_def)


lemma demo_assign_generator:
  "assign_weights demo_generator (fs_generator_weights demo_from_server)
     = Inr [\<lparr>val = \<lparr>shape = [1], elems = [Num 3]\<rparr>, trainable = True\<rparr>]"
  by (simp add: assign_weights_def demo_generator_def demo_from_server_def)

lemma demo_assign_discriminator:
  "assign_weights demo_discriminator (fs_discriminator_weights demo_from_server)
     = Inr [\<lparr>val = \<lparr>shape = [2], elems = [Num 1, PosInf]\<rparr>, trainable = True\<rparr>,
            \<lparr>val = \<lparr>shape = [1], elems = [Num 5]\<rparr>, trainable = False\<rparr>]"
  by (simp add: assign_weights_def demo_discriminator_def demo_from_server_def)

lemma demo_client_train:
  "client_train demo_env [[1, 2, 3], [4]] [[7, 8]] demo_from_server demo_generator
     demo_discriminator
   = Inr ([\<lparr>val = \<lparr>shape = [1], elems = [Num 3]\<rparr>, trainable = True\<rparr>],
          [\<lparr>val = \<lparr>shape = [2], elems = [Num (1 - 5 / 10000), PosInf]\<rparr>, trainable = True\<rparr>,
           \<lparr>val = \<lparr>shape = [1], elems = [Num 5]\<rparr>, trainable = False\<rparr>],
          2, [([1, 2], [7, 8])])"
  by (simp add: client_train_def demo_assign_generator demo_assign_discriminator
        create_train_discriminator_fn_def minimize_def SGD_def sgd_update_def demo_env_def
        ones_like_def trainable_variables_def batch_size_def f32_sub_def inf_of_sign_def)

lemma finite_assign_generator:
  "assign_weights demo_generator (fs_generator_weights finite_from_server)
     = Inr [\<lparr>val = \<lparr>shape = [1], elems = [Num 3]\<rparr>, trainable = True\<rparr>]"
  by (simp add: assign_weights_def demo_generator_def finite_from_server_def)

lemma finite_assign_discriminator:
  "assign_weights demo_discriminator (fs_discriminator_weights finite_from_server)
     = Inr [\<lparr>val = \<lparr>shape = [2], elems = [Num 1, Num 4]\<rparr>, trainable = True\<rparr>,
            \<lparr>val = \<lparr>shape = [1], elems = [Num 5]\<rparr>, trainable = False\<rparr>]"
  by (simp add: assign_weights_def demo_discriminator_def finite_from_server_def)



lemma zeros_like_explicit:
  "zeros_like t = \<lparr>shape = shape t, elems = replicate (length (elems t)) (Num 0)\<rparr>"
  by (simp add: zeros_like_def map_replicate_const)








lemma sub_self_zero:
  "list_all is_finite (map2 f32_sub e e) \<Longrightarrow> map2 f32_sub e e = replicate (length e) (Num 0)"
  by (induction e) (simp_all add: f32_sub_self)

text \<open>
  Claim C8. With both datasets empty no training step runs, the discriminator holds the
  broadcast weights at the end, and the \<open>ClientOutput\<close> has as its delta, for every
  broadcast discriminator weight, the tensor of the same shape and the same number of
  elements whose elements are all \<open>0.0\<close>; its \<open>update_weight\<close> is 0 and its single counter
  \<open>num_discriminator_train_examples\<close> is 0. This also holds for weights that are not
  finite: their delta is NaN, which the numeric safety helper replaces by zeros.
\<close>

theorem empty_datasets_zero_output:
  assumes "assign_weights generator (fs_generator_weights from_server) = Inr g0"
    and "assign_weights discriminator (fs_discriminator_weights from_server) = Inr d0"
  shows "\<exists>out.
     client_computation env [] [] from_server generator discriminator f = Inr (out, g0, d0) \<and>
     weights_read d0 = fs_discriminator_weights from_server \<and>
     discriminator_weights_delta out
       = map (\<lambda>w. \<lparr>shape = shape w, elems = replicate (length (elems w)) (Num 0)\<rparr>)
           (fs_discriminator_weights from_server) \<and>
     update_weight out = Num 0 \<and>
     co_counters out = [(''num_discriminator_train_examples'', 0)]"
proof -
  let ?ws = "fs_discriminator_weights from_server"
  let ?zeros = "map (\<lambda>w. \<lparr>shape = shape w, elems = replicate (length (elems w)) (Num 0)\<rparr>) ?ws"
  from assms have tr: "client_train env [] [] from_server generator discriminator
                         = Inr (g0, d0, 0, [])"
    by (simp add: client_train_def)
  from assign_weights_Inr(1) [OF assms(2)] have d0: "weights_read d0 = ?ws" .
  then have raw: "raw_delta d0 from_server = map2 tf_subtract ?ws ?ws"
    by (simp add: raw_delta_def)
  have fin: "list_all all_finite (map2 tf_subtract ts ts) \<Longrightarrow>
             map2 tf_subtract ts ts
               = map (\<lambda>w. \<lparr>shape = shape w, elems = replicate (length (elems w)) (Num 0)\<rparr>) ts"
    for ts
    by (induction ts) (simp_all add: tf_subtract_def all_finite_def sub_self_zero)
  have nonfin: "map zeros_like (map2 tf_subtract ts ts)
               = map (\<lambda>w. \<lparr>shape = shape w, elems = replicate (length (elems w)) (Num 0)\<rparr>) ts"
    for ts
    by (induction ts) (simp_all add: tf_subtract_def zeros_like_explicit)
  have c0: "cast_f32 0 = Num 0" by (simp add: cast_f32_def)
  note out = client_computation_after_train [OF tr, of f]
  show ?thesis
  proof (cases "list_all all_finite (map2 tf_subtract ?ws ?ws)")
    case True
    with out d0 raw fin [of ?ws] c0 show ?thesis
      by (simp add: zero_all_if_any_non_finite_def)
  next
    case False
    with out d0 raw nonfin [of ?ws] show ?thesis
      by (simp add: zero_all_if_any_non_finite_def)
  qed
qed

theorem empty_datasets_zero_output_witness:
  "(\<exists>out.
     client_computation demo_env [] [] finite_from_server demo_generator demo_discriminator
       (\<lambda>g d x y. Inl CapabilityError)
       = Inr (out, [\<lparr>val = \<lparr>shape = [1], elems = [Num 3]\<rparr>, trainable = True\<rparr>],
            [\<lparr>val = \<lparr>shape = [2], elems = [Num 1, Num 4]\<rparr>, trainable = True\<rparr>,
             \<lparr>val = \<lparr>shape = [1], elems = [Num 5]\<rparr>, trainable = False\<rparr>]) \<and>
     discriminator_weights_delta out
       = [\<lparr>shape = [2], elems = [Num 0, Num 0]\<rparr>, \<lparr>shape = [1], elems = [Num 0]\<rparr>] \<and>
     update_weight out = Num 0 \<and>
     co_counters out = [(''num_discriminator_train_examples'', 0)]) \<and>
   (\<exists>out.
     client_computation demo_env [] [] demo_from_server demo_generator demo_discriminator
       (\<lambda>g d x y. Inl CapabilityError)
       = Inr (out, [\<lparr>val = \<lparr>shape = [1], elems = [Num 3]\<rparr>, trainable = True\<rparr>],
            [\<lparr>val = \<lparr>shape = [2], elems = [Num 1, PosInf]\<rparr>, trainable = True\<rparr>,
             \<lparr>val = \<lparr>shape = [1], elems = [Num 5]\<rparr>, trainable = False\<rparr>]) \<and>
     discriminator_weights_delta out
       = [\<lparr>shape = [2], elems = [Num 0, Num 0]\<rparr>, \<lparr>shape = [1], elems = [Num 0]\<rparr>] \<and>
     update_weight out = Num 0 \<and>
     co_counters out = [(''num_discriminator_train_examples'', 0)])"
proof -
  from empty_datasets_zero_output [OF finite_assign_generator finite_assign_discriminator,
      of demo_env "\<lambda>g d x y. Inl CapabilityError"]
  have a: "\<exists>out.
     client_computation demo_env [] [] finite_from_server demo_generator demo_discriminator
       (\<lambda>g d x y. Inl CapabilityError)
       = Inr (out, [\<lparr>val = \<lparr>shape = [1], elems = [Num 3]\<rparr>, trainable = True\<rparr>],
            [\<lparr>val = \<lparr>shape = [2], elems = [Num 1, Num 4]\<rparr>, trainable = True\<rparr>,
             \<lparr>val = \<lparr>shape = [1], elems = [Num 5]\<rparr>, trainable = False\<rparr>]) \<and>
     discriminator_weights_delta out
       = [\<lparr>shape = [2], elems = [Num 0, Num 0]\<rparr>, \<lparr>shape = [1], elems = [Num 0]\<rparr>] \<and>
     update_weight out = Num 0 \<and>
     co_counters out = [(''num_discriminator_train_examples'', 0)]"
    by (auto simp: finite_from_server_def)
  from empty_datasets_zero_output [OF demo_assign_generator demo_assign_discriminator,
      of demo_env "\<lambda>g d x y. Inl CapabilityError"]
  have b: "\<exists>out.
     client_computation demo_env [] [] demo_from_server demo_generator demo_discriminator
       (\<lambda>g d x y. Inl CapabilityError)
       = Inr (out, [\<lparr>val = \<lparr>shape = [1], elems = [Num 3]\<rparr>, trainable = True\<rparr>],
            [\<lparr>val = \<lparr>shape = [2], elems = [Num 1, PosInf]\<rparr>, trainable = True\<rparr>,
             \<lparr>val = \<lparr>shape = [1], elems = [Num 5]\<rparr>, trainable = False\<rparr>]) \<and>
     discriminator_weights_delta out
       = [\<lparr>shape = [2], elems = [Num 0, Num 0]\<rparr>, \<lparr>shape = [1], elems = [Num 0]\<rparr>] \<and>
     update_weight out = Num 0 \<and>
     co_counters out = [(''num_discriminator_train_examples'', 0)]"
    by (auto simp: demo_from_server_def)
  from a b show ?thesis by blast
qed

lemma trainable_variables_assigned:
  assumes "assign_weights m ws = Inr m'"
  shows "trainable_variables m' = map snd (filter (\<lambda>p. trainable (fst p)) (zip m ws))"
proof -
  from assms have len: "length m = length ws"
    and m': "m' = map2 (\<lambda>a b. a\<lparr>val := b\<rparr>) m ws"
    by (auto simp: assign_weights_def split: if_splits)
  from len show ?thesis unfolding m' trainable_variables_def
    by (induction m ws rule: list_induct2) simp_all
qed

text \<open>
  Claim C10. \<open>client_computation\<close> never trains the generator: when it returns, each
  trainable variable of the generator holds the value that \<open>from_server.generator_weights\<close>
  has at its position, whatever the training steps did to the discriminator.
\<close>

theorem client_leaves_generator:
  assumes "client_computation env gen_inputs_ds real_data_ds from_server generator
             discriminator f = Inr (out, g', d')"
  shows "map trainable g' = map trainable generator \<and>
         trainable_variables g'
           = map snd (filter (\<lambda>p. trainable (fst p))
                        (zip generator (fs_generator_weights from_server)))"
proof -
  from assms obtain n steps where
    tr: "client_train env gen_inputs_ds real_data_ds from_server generator discriminator
           = Inr (g', d', n, steps)"
    by (auto simp: client_computation_def split_beta Let_def split: sum.splits)
  then obtain g0 d0 where
    g0: "assign_weights generator (fs_generator_weights from_server) = Inr g0"
    and loop: "client_loop (create_train_discriminator_fn env (WassersteinGanLossFns env (Num 10))
                 (SGD (Num (5 / 10000)))) g0 d0 (zip gen_inputs_ds real_data_ds) 0 []
               = Inr (g', d', n, steps)"
    by (auto simp: client_train_def split: sum.splits)
  from client_loop_Inr [OF loop] have "g' = g0" by simp
  with trainable_variables_assigned [OF g0] client_train_Inr(2) [OF tr] show ?thesis
    by simp
qed

theorem client_leaves_generator_witness:
  "client_computation demo_env [[1, 2, 3], [4]] [[7, 8]] demo_from_server demo_generator
     demo_discriminator (\<lambda>g d x y. Inl CapabilityError)
   = Inr (\<lparr>discriminator_weights_delta =
             [\<lparr>shape = [2], elems = [Num 0, Num 0]\<rparr>, \<lparr>shape = [1], elems = [Num 0]\<rparr>],
           update_weight = Num 0,
           co_counters = [(''num_discriminator_train_examples'', 2)]\<rparr>,
          [\<lparr>val = \<lparr>shape = [1], elems = [Num 3]\<rparr>, trainable = True\<rparr>],
          [\<lparr>val = \<lparr>shape = [2], elems = [Num (1 - 5 / 10000), PosInf]\<rparr>, trainable = True\<rparr>,
           \<lparr>val = \<lparr>shape = [1], elems = [Num 5]\<rparr>, trainable = False\<rparr>]) \<and>
   trainable_variables [\<lparr>val = \<lparr>shape = [1], elems = [Num 3]\<rparr>, trainable = True\<rparr>]
     = [\<lparr>shape = [1], elems = [Num 3]\<rparr>]"
proof -
  have run: "client_computation demo_env [[1, 2, 3], [4]] [[7, 8]] demo_from_server
      demo_generator demo_discriminator (\<lambda>g d x y. Inl CapabilityError)
   = Inr (\<lparr>discriminator_weights_delta =
             [\<lparr>shape = [2], elems = [Num 0, Num 0]\<rparr>, \<lparr>shape = [1], elems = [Num 0]\<rparr>],
           update_weight = Num 0,
           co_counters = [(''num_discriminator_train_examples'', 2)]\<rparr>,
          [\<lparr>val = \<lparr>shape = [1], elems = [Num 3]\<rparr>, trainable = True\<rparr>],
          [\<lparr>val = \<lparr>shape = [2], elems = [Num (1 - 5 / 10000), PosInf]\<rparr>, trainable = True\<rparr>,
           \<lparr>val = \<lparr>shape = [1], elems = [Num 5]\<rparr>, trainable = False\<rparr>])"
    unfolding client_computation_def demo_client_train
    by (simp add: subtract_structure_def weights_read_def demo_from_server_def
        tf_subtract_def f32_sub_def zero_all_if_any_non_finite_def all_finite_def
        zeros_like_def)
  from client_leaves_generator [OF run] run show ?thesis
    by (simp add: demo_from_server_def demo_generator_def)
qed

subsection \<open>The server round: loop and counters\<close>

lemma gen_step_Inr:
  assumes "create_train_generator_fn env L opt g d gi = Inr (g', d', n)"
  shows "d' = d" and "n = batch_size gi"
    and "map trainable g' = map trainable g"
    and "map (\<lambda>v. shape (val v)) g' = map (\<lambda>v. shape (val v)) g"
  using assms assign_trainable_Inr [of g _ g']
  by (auto simp: create_train_generator_fn_def split: sum.splits)

lemma server_loop_Inr:
  "server_loop (create_train_generator_fn env L opt) g d ds n = Inr (g', d', n')
   \<Longrightarrow> d' = d \<and> n' = n + of_nat (examples_in ds)"
proof (induction ds arbitrary: g n)
  case Nil
  then show ?case by (simp add: examples_in_def)
next
  case (Cons b ds)
  from Cons.prems obtain g1 d1 k where
    step: "create_train_generator_fn env L opt g d b = Inr (g1, d1, k)"
    and rest: "server_loop (create_train_generator_fn env L opt) g1 d1 ds (n + k)
                 = Inr (g', d', n')"
    by (auto split: sum.splits)
  from gen_step_Inr(1,2) [OF step] have "d1 = d" and "k = batch_size b" by simp_all
  with Cons.IH [of g1 "n + k"] rest show ?case
    by (simp add: examples_in_def batch_size_def add.assoc)
qed

lemma counter_add_Some:
  assumes "map_of c k = Some old"
  shows "counter_add c k v = Inr (AList.update k (old + v) c)"
  using assms by (simp add: counter_add_def)

lemma counter_add_None:
  assumes "map_of c k = None"
  shows "counter_add c k v = Inl (KeyError k)"
  using assms by (simp add: counter_add_def)

lemma counter_add_Inr:
  assumes "counter_add c k v = Inr c'"
  shows "map fst c' = map fst c"
    and "map_of c' k' = (if k' = k then map_option (\<lambda>old. old + v) (map_of c k) else map_of c k')"
proof -
  from assms obtain old where old: "map_of c k = Some old"
    and c': "c' = AList.update k (old + v) c"
    by (auto simp: counter_add_def split: option.splits)
  from old have "k \<in> fst ` set c" by (auto dest: map_of_SomeD intro: rev_image_eqI)
  then show "map fst c' = map fst c" unfolding c' by (simp add: update_keys)
  from old show "map_of c' k' = (if k' = k then map_option (\<lambda>old. old + v) (map_of c k) else map_of c k')"
    unfolding c' by (simp add: update_conv')
qed

lemma add_client_counters_total:
  assumes "distinct (map fst kvs)" and "fst ` set kvs \<subseteq> fst ` set c"
  shows "\<exists>c'. add_client_counters c kvs = Inr c' \<and> map fst c' = map fst c \<and>
           (\<forall>k. map_of c' k =
              map_option (\<lambda>old. old + (case map_of kvs k of None \<Rightarrow> 0 | Some v \<Rightarrow> v))
                (map_of c k))"
  using assms
proof (induction kvs arbitrary: c)
  case Nil
  then show ?case by (simp add: option.map_ident)
next
  case (Cons kv kvs)
  obtain k v where kv: "kv = (k, v)" by (cases kv)
  from Cons.prems kv have "k \<in> fst ` set c" by simp
  then obtain old where old: "map_of c k = Some old"
    by (metis domD dom_map_of_conv_image_fst)
  let ?c1 = "AList.update k (old + v) c"
  from counter_add_Some [OF old] have add: "counter_add c k v = Inr ?c1" .
  note c1 = counter_add_Inr [OF add]
  from Cons.prems kv c1(1) have "distinct (map fst kvs)" and "fst ` set kvs \<subseteq> fst ` set ?c1"
    by (simp_all flip: set_map)
  from Cons.IH [OF this] obtain c' where
    run: "add_client_counters ?c1 kvs = Inr c'" and keys: "map fst c' = map fst ?c1"
    and vals: "\<And>k'. map_of c' k' =
        map_option (\<lambda>old. old + (case map_of kvs k' of None \<Rightarrow> 0 | Some v \<Rightarrow> v))
          (map_of ?c1 k')" by blast
  from Cons.prems kv have notin: "map_of kvs k = None"
    by (simp add: map_of_eq_None_iff)
  have "map_of c' k' =
      map_option (\<lambda>old. old + (case map_of (kv # kvs) k' of None \<Rightarrow> 0 | Some v \<Rightarrow> v))
        (map_of c k')" for k'
    using vals [of k'] c1(2) [of k'] old notin kv
    by (cases "map_of c k'") (auto simp: option.map_comp comp_def)
  with run keys c1(1) add kv show ?case by simp
qed

lemma add_client_counters_missing:
  assumes "\<not> fst ` set kvs \<subseteq> fst ` set c"
  shows "\<exists>k. add_client_counters c kvs = Inl (KeyError k) \<and> k \<in> fst ` set kvs \<and>
           k \<notin> fst ` set c"
  using assms
proof (induction kvs arbitrary: c)
  case Nil
  then show ?case by simp
next
  case (Cons kv kvs)
  obtain k v where kv: "kv = (k, v)" by (cases kv)
  show ?case
  proof (cases "map_of c k")
    case None
    then have "k \<notin> fst ` set c" by (simp add: map_of_eq_None_iff)
    with counter_add_None [OF None] kv show ?thesis by auto
  next
    case (Some old)
    let ?c1 = "AList.update k (old + v) c"
    from counter_add_Some [OF Some] have add: "counter_add c k v = Inr ?c1" .
    from counter_add_Inr(1) [OF add] have keys: "fst ` set ?c1 = fst ` set c"
      by (metis set_map)
    from Some have "k \<in> fst ` set c" by (auto dest: map_of_SomeD intro: rev_image_eqI)
    with Cons.prems kv keys have "\<not> fst ` set kvs \<subseteq> fst ` set ?c1" by auto
    from Cons.IH [OF this] keys add kv show ?thesis by auto
  qed
qed

lemma server_computation_key_error:
  assumes du: "server_disc_update st co g d opt = Inr (g1, d1)"
    and sub: "\<not> fst ` set (co_counters co) \<subseteq> fst ` set (counters st)"
  shows "\<exists>k. server_computation env st ds co g d opt f nas = Inl (KeyError k) \<and>
           k \<in> fst ` set (co_counters co) \<and> k \<notin> fst ` set (counters st)"
proof -
  from add_client_counters_missing [OF sub] obtain k where
    "add_client_counters (counters st) (co_counters co) = Inl (KeyError k)"
    and k: "k \<in> fst ` set (co_counters co)" "k \<notin> fst ` set (counters st)" by blast
  with du have "server_computation env st ds co g d opt f nas = Inl (KeyError k)"
    by (simp add: server_computation_def)
  with k show ?thesis by blast
qed

subsection \<open>The server round: discriminator update\<close>

lemma f32_mul_minus_one: "f32_mul (Num (- 1)) x = f32_neg x"
  by (cases x) (simp_all add: inf_of_sign_def)

lemma f32_neg_inf_of_sign: "f32_neg (inf_of_sign s) = inf_of_sign (- s)"
  by (simp add: inf_of_sign_def)

lemma f32_mul_neg: "f32_mul lr (f32_neg x) = f32_neg (f32_mul lr x)"
  by (cases lr; cases x) (simp_all add: f32_neg_inf_of_sign)

lemma f32_neg_neg: "f32_neg (f32_neg x) = x"
  by (cases x) simp_all

lemma sgd_step_is_add: "f32_sub w (f32_mul lr (f32_mul (Num (- 1)) x)) = f32_add w (f32_mul lr x)"
  by (simp add: f32_sub_def f32_mul_minus_one f32_mul_neg f32_neg_neg)

lemma f32_mul_one: "f32_mul (Num 1) x = x"
  by (cases x) (simp_all add: inf_of_sign_def)

lemma f32_add_zero: "f32_add w (Num 0) = w"
  by (cases w) simp_all

lemma f32_mul_zero: "is_finite lr \<Longrightarrow> f32_mul lr (Num 0) = Num 0"
  by (cases lr) simp_all

lemma sgd_update_scaled: "sgd_update lr (tf_scale (Num (- 1)) x, w) = add_scaled lr w x"
proof -
  have "map2 (\<lambda>a g. f32_sub a (f32_mul lr g)) ws (map (f32_mul (Num (- 1))) xs)
        = map2 (\<lambda>a b. f32_add a (f32_mul lr b)) ws xs" for ws xs
  proof (induction ws arbitrary: xs)
    case Nil
    then show ?case by simp
  next
    case (Cons a ws)
    then show ?case by (cases xs) (simp_all add: sgd_step_is_add)
  qed
  then show ?thesis by (simp add: sgd_update_def tf_scale_def add_scaled_def)
qed

lemma shape_add_scaled: "shape (add_scaled lr w x) = shape w"
  by (simp add: add_scaled_def)

lemma add_scaled_zeros: "is_finite lr \<Longrightarrow> add_scaled lr w (zeros_like w) = w"
proof -
  assume lr: "is_finite lr"
  have "map2 (\<lambda>a b. f32_add a (f32_mul lr b)) ws (map (\<lambda>x. Num 0) ws) = ws" for ws
    by (induction ws) (simp_all add: f32_mul_zero [OF lr] f32_add_zero)
  then show ?thesis by (simp add: add_scaled_def zeros_like_def)
qed

lemma server_disc_update_loaded:
  assumes g0: "assign_weights g (generator_weights st) = Inr g0"
    and d0: "assign_weights d (discriminator_weights st) = Inr d0"
    and len: "length (discriminator_weights_delta co) = length d"
  shows "server_disc_update st co g d opt =
     (case apply_gradients opt
             (zip (map (tf_scale (Num (- 1))) (discriminator_weights_delta co))
                  (discriminator_weights st)) of
        Inl e \<Rightarrow> Inl e
      | Inr new_values \<Rightarrow>
          (case assign_weights d0 new_values of
             Inl e \<Rightarrow> Inl e
           | Inr d1 \<Rightarrow> Inr (g0, d1)))"
proof -
  note D = assign_weights_Inr [OF d0]
  have "map2 (\<lambda>x v. (tf_scale (Num (- 1)) x, val v)) xs vs
        = zip (map (tf_scale (Num (- 1))) xs) (map val vs)" for xs :: "tensor list" and vs
    by (simp add: zip_map_map split_def)
  from this [of "discriminator_weights_delta co" d0] D(1)
  have gv: "map2 (\<lambda>x v. (tf_scale (Num (- 1)) x, val v))
            (discriminator_weights_delta co) d0
        = zip (map (tf_scale (Num (- 1))) (discriminator_weights_delta co))
              (discriminator_weights st)"
    unfolding weights_read_def by simp
  from g0 d0 len D(3) gv show ?thesis
    by (simp add: server_disc_update_def Let_def)
qed

lemma sgd_accepts_scaled:
  "length xs = length ws \<Longrightarrow> map shape xs = map shape ws \<Longrightarrow>
   list_all (\<lambda>gv. shape (fst gv) = shape (snd gv)) (zip (map (tf_scale c) xs) ws)"
  by (induction xs ws rule: list_induct2) (simp_all add: tf_scale_def)

lemma sgd_update_scaled_list:
  "length xs = length ws \<Longrightarrow>
   map (sgd_update lr) (zip (map (tf_scale (Num (- 1))) xs) ws) = map2 (add_scaled lr) ws xs"
  by (induction xs ws rule: list_induct2) (simp_all add: sgd_update_scaled)

lemma shape_add_scaled_list:
  "length xs = length ws \<Longrightarrow> map shape (map2 (add_scaled lr) ws xs) = map shape ws"
  by (induction xs ws rule: list_induct2) (simp_all add: shape_add_scaled)

lemma server_disc_update_sgd:
  assumes g0: "assign_weights g (generator_weights st) = Inr g0"
    and d0: "assign_weights d (discriminator_weights st) = Inr d0"
    and sh: "map shape (discriminator_weights_delta co) = map shape (discriminator_weights st)"
  shows "\<exists>d1. server_disc_update st co g d (SGD lr) = Inr (g0, d1) \<and>
           weights_read d1 = map2 (add_scaled lr) (discriminator_weights st)
                               (discriminator_weights_delta co)"
proof -
  let ?ws = "discriminator_weights st"
  let ?xs = "discriminator_weights_delta co"
  note D = assign_weights_Inr [OF d0]
  from sh have lenx: "length ?xs = length ?ws" by (rule map_eq_imp_length_eq)
  from D(1) have "length (map val d0) = length ?ws" unfolding weights_read_def by simp
  then have lend0: "length d0 = length ?ws" by simp
  with lenx D(3) have len: "length ?xs = length d" by simp
  let ?gv = "zip (map (tf_scale (Num (- 1))) ?xs) ?ws"
  let ?new = "map2 (add_scaled lr) ?ws ?xs"
  note ok = sgd_accepts_scaled [OF lenx sh, of "Num (- 1)"]
  note new = sgd_update_scaled_list [OF lenx, of lr]
  from ok new have app: "apply_gradients (SGD lr) ?gv = Inr ?new" by (simp add: SGD_def)
  note shnew = shape_add_scaled_list [OF lenx, of lr]
  have "map shape ?ws = map (\<lambda>v. shape (val v)) d0"
    unfolding D(1) [symmetric] weights_read_def by (simp add: comp_def)
  with shnew have "map (\<lambda>v. shape (val v)) d0 = map shape ?new" by simp
  then have "list_all2 (\<lambda>a b. shape (val a) = shape b) d0 ?new"
    by (simp only: same_shapes_iff)
  then have "list_all2 (\<lambda>a b. shape b = shape (val a)) d0 ?new"
    by (simp add: eq_commute)
  with lenx lend0 have asg: "assign_weights d0 ?new = Inr (map2 (\<lambda>a b. a\<lparr>val := b\<rparr>) d0 ?new)"
    by (simp add: assign_weights_def)
  with app server_disc_update_loaded [OF g0 d0 len, of "SGD lr"]
  have run: "server_disc_update st co g d (SGD lr)
               = Inr (g0, map2 (\<lambda>a b. a\<lparr>val := b\<rparr>) d0 ?new)"
    by simp
  from assign_weights_Inr(1) [OF asg] run show ?thesis by simp
qed

lemma add_scaled_one: "add_scaled (Num 1) = tf_add"
  by (simp add: fun_eq_iff add_scaled_def tf_add_def f32_mul_one)

lemma add_scaled_zeros_list:
  "is_finite lr \<Longrightarrow> map2 (add_scaled lr) ws (map zeros_like ws) = ws"
  by (induction ws) (simp_all add: add_scaled_zeros)

text \<open>
  Claim C4, amended. With plain SGD of learning rate \<open>lr\<close> as the server optimizer, and a
  delta of the shapes of the state's discriminator weights, the discriminator-update step
  (before any generator training) sets each discriminator weight to old weight plus
  \<open>lr\<close> times delta, the optimizer being applied to the gradient \<open>-1.0 * delta\<close>. This is
  old weight plus delta when \<open>lr\<close> is 1, and with an all-zero delta and a finite learning
  rate the weights are unchanged.
\<close>

theorem sgd_server_update:
  assumes "assign_weights generator (generator_weights server_state) = Inr g0"
    and "assign_weights discriminator (discriminator_weights server_state) = Inr d0"
    and "map shape (discriminator_weights_delta client_output)
           = map shape (discriminator_weights server_state)"
  shows "\<exists>d1. server_disc_update server_state client_output generator discriminator (SGD lr)
                = Inr (g0, d1) \<and>
           weights_read d1 = map2 (add_scaled lr) (discriminator_weights server_state)
                               (discriminator_weights_delta client_output) \<and>
           (lr = Num 1 \<longrightarrow>
              weights_read d1 = map2 tf_add (discriminator_weights server_state)
                                  (discriminator_weights_delta client_output)) \<and>
           (is_finite lr \<and>
            discriminator_weights_delta client_output
              = map zeros_like (discriminator_weights server_state) \<longrightarrow>
              weights_read d1 = discriminator_weights server_state)"
proof -
  from server_disc_update_sgd [OF assms, of lr] obtain d1 where
    run: "server_disc_update server_state client_output generator discriminator (SGD lr)
            = Inr (g0, d1)"
    and new: "weights_read d1 = map2 (add_scaled lr) (discriminator_weights server_state)
                                  (discriminator_weights_delta client_output)" by blast
  from new have one: "lr = Num 1 \<Longrightarrow>
      weights_read d1 = map2 tf_add (discriminator_weights server_state)
                          (discriminator_weights_delta client_output)"
    by (simp add: add_scaled_one)
  from new have zero: "is_finite lr \<Longrightarrow>
      discriminator_weights_delta client_output
        = map zeros_like (discriminator_weights server_state) \<Longrightarrow>
      weights_read d1 = discriminator_weights server_state"
    by (simp add: add_scaled_zeros_list)
  from run new one zero show ?thesis by blast
qed

lemma demo_state_generator:
  "assign_weights demo_generator (generator_weights demo_state)
     = Inr [\<lparr>val = \<lparr>shape = [1], elems = [Num 3]\<rparr>, trainable = True\<rparr>]"
  by (simp add: assign_weights_def demo_generator_def demo_state_def)

lemma demo_state_discriminator:
  "assign_weights demo_discriminator (discriminator_weights demo_state)
     = Inr [\<lparr>val = \<lparr>shape = [2], elems = [Num 1, NegInf]\<rparr>, trainable = True\<rparr>,
            \<lparr>val = \<lparr>shape = [1], elems = [Num 5]\<rparr>, trainable = False\<rparr>]"
  by (simp add: assign_weights_def demo_discriminator_def demo_state_def)

theorem sgd_server_update_witness:
  "\<exists>d1. server_disc_update demo_state zero_client_output demo_generator demo_discriminator
           (SGD (Num 1))
         = Inr ([\<lparr>val = \<lparr>shape = [1], elems = [Num 3]\<rparr>, trainable = True\<rparr>], d1) \<and>
        weights_read d1 = discriminator_weights demo_state \<and>
        weights_read d1 = map2 tf_add (discriminator_weights demo_state)
                            (discriminator_weights_delta zero_client_output)"
proof -
  have sh: "map shape (discriminator_weights_delta zero_client_output)
              = map shape (discriminator_weights demo_state)"
    by (simp add: zero_client_output_def demo_state_def)
  have z: "discriminator_weights_delta zero_client_output
             = map zeros_like (discriminator_weights demo_state)"
    by (simp add: zero_client_output_def demo_state_def zeros_like_def)
  from sgd_server_update [OF demo_state_generator demo_state_discriminator sh, of "Num 1"] z
  show ?thesis by auto
qed

theorem sgd_server_update_counterexample:
  "server_disc_update
     \<lparr>generator_weights = [], discriminator_weights = [\<lparr>shape = [1], elems = [Num 1]\<rparr>],
      counters = [], aggregation_state = ()\<rparr>
     \<lparr>discriminator_weights_delta = [\<lparr>shape = [1], elems = [Num 2]\<rparr>],
      update_weight = Num 1, co_counters = []\<rparr>
     [] [\<lparr>val = \<lparr>shape = [1], elems = [Num 0]\<rparr>, trainable = True\<rparr>] (SGD (Num (1 / 2)))
   = Inr ([], [\<lparr>val = \<lparr>shape = [1], elems = [Num 2]\<rparr>, trainable = True\<rparr>]) \<and>
   weights_read [\<lparr>val = \<lparr>shape = [1], elems = [Num 2]\<rparr>, trainable = True\<rparr>]
     \<noteq> map2 tf_add [\<lparr>shape = [1], elems = [Num 1]\<rparr>] [\<lparr>shape = [1], elems = [Num 2]\<rparr>]"
  by (simp add: server_disc_update_def assign_weights_def SGD_def sgd_update_def tf_scale_def
      f32_sub_def weights_read_def tf_add_def)

lemma assign_weights_Inl:
  "assign_weights m ws = Inl e \<Longrightarrow> e = StructureError \<or> e = ShapeError"
  by (auto simp: assign_weights_def split: if_splits)

lemma server_disc_update_Inl_computation:
  "server_disc_update st co g d opt = Inl e \<Longrightarrow>
   server_computation env st ds co g d opt f nas = Inl e"
  by (simp add: server_computation_def)

lemma sgd_rejects:
  "length xs = length ws \<Longrightarrow> map shape xs \<noteq> map shape ws \<Longrightarrow>
   apply_gradients (SGD lr) (zip (map (tf_scale c) xs) ws) = Inl ShapeError"
proof -
  assume len: "length xs = length ws" and ne: "map shape xs \<noteq> map shape ws"
  from len ne have "\<not> list_all (\<lambda>gv. shape (fst gv) = shape (snd gv)) (zip (map (tf_scale c) xs) ws)"
    by (induction xs ws rule: list_induct2) (auto simp: tf_scale_def)
  then show ?thesis by (simp add: SGD_def)
qed

lemma count_mismatch_raises:
  assumes "length (discriminator_weights_delta co) \<noteq> length d"
  shows "server_disc_update st co g d opt = Inl StructureError \<or>
         server_disc_update st co g d opt = Inl ShapeError"
proof (cases "assign_weights g (generator_weights st)")
  case (Inl e)
  with assign_weights_Inl [OF Inl] show ?thesis by (auto simp: server_disc_update_def)
next
  case g0: (Inr g0)
  show ?thesis
  proof (cases "assign_weights d (discriminator_weights st)")
    case (Inl e)
    with assign_weights_Inl [OF Inl] g0 show ?thesis by (auto simp: server_disc_update_def)
  next
    case (Inr d0)
    from assign_weights_Inr(3) [OF Inr] assms g0 Inr show ?thesis
      by (simp add: server_disc_update_def)
  qed
qed

lemma shape_mismatch_raises_sgd:
  assumes "map shape (discriminator_weights_delta co) \<noteq> map (\<lambda>v. shape (val v)) d"
  shows "server_disc_update st co g d (SGD lr) = Inl StructureError \<or>
         server_disc_update st co g d (SGD lr) = Inl ShapeError"
proof (cases "length (discriminator_weights_delta co) = length d")
  case False
  then show ?thesis by (rule count_mismatch_raises)
next
  case len: True
  show ?thesis
  proof (cases "assign_weights g (generator_weights st)")
    case (Inl e)
    with assign_weights_Inl [OF Inl] show ?thesis by (auto simp: server_disc_update_def)
  next
    case g0: (Inr g0)
    show ?thesis
    proof (cases "assign_weights d (discriminator_weights st)")
      case (Inl e)
      with assign_weights_Inl [OF Inl] g0 show ?thesis by (auto simp: server_disc_update_def)
    next
      case (Inr d0)
      note D = assign_weights_Inr [OF Inr]
      from D(4) assms have ne: "map shape (discriminator_weights_delta co)
                                  \<noteq> map shape (discriminator_weights st)" by simp
      from D(4) have "length (discriminator_weights st) = length d"
        by (auto dest: map_eq_imp_length_eq)
      with len have "length (discriminator_weights_delta co) = length (discriminator_weights st)"
        by simp
      from sgd_rejects [OF this ne] server_disc_update_loaded [OF g0 Inr len, of "SGD lr"]
      show ?thesis by simp
    qed
  qed
qed

text \<open>
  Claim C6, amended. A delta whose number of tensors differs from the number of
  discriminator weights makes \<open>server_computation\<close> raise a structural error, whatever the
  optimizer, and no state is returned. A delta with a tensor of another shape is not seen
  by the structure check; with plain SGD as the server optimizer it is the optimizer
  that rejects it. When count and shapes agree (and the state's weights load), the
  discriminator-update step with plain SGD raises nothing.
\<close>

theorem delta_structure_check:
  "(length (discriminator_weights_delta client_output) \<noteq> length discriminator \<longrightarrow>
      server_computation env server_state gen_inputs_ds client_output generator discriminator
        opt f new_aggregation_state \<in> {Inl StructureError, Inl ShapeError}) \<and>
   (map shape (discriminator_weights_delta client_output)
      \<noteq> map (\<lambda>v. shape (val v)) discriminator \<longrightarrow>
      server_computation env server_state gen_inputs_ds client_output generator discriminator
        (SGD lr) f new_aggregation_state \<in> {Inl StructureError, Inl ShapeError}) \<and>
   (assign_weights generator (generator_weights server_state) = Inr g0 \<and>
    assign_weights discriminator (discriminator_weights server_state) = Inr d0 \<and>
    map shape (discriminator_weights_delta client_output)
      = map (\<lambda>v. shape (val v)) discriminator \<longrightarrow>
      (\<exists>d1. server_disc_update server_state client_output generator discriminator (SGD lr)
              = Inr (g0, d1)))"
proof (intro conjI impI)
  assume "length (discriminator_weights_delta client_output) \<noteq> length discriminator"
  from count_mismatch_raises [OF this, of server_state generator opt]
  show "server_computation env server_state gen_inputs_ds client_output generator discriminator
        opt f new_aggregation_state \<in> {Inl StructureError, Inl ShapeError}"
    by (auto dest: server_disc_update_Inl_computation)
next
  assume "map shape (discriminator_weights_delta client_output)
      \<noteq> map (\<lambda>v. shape (val v)) discriminator"
  from shape_mismatch_raises_sgd [OF this, of server_state generator lr]
  show "server_computation env server_state gen_inputs_ds client_output generator discriminator
        (SGD lr) f new_aggregation_state \<in> {Inl StructureError, Inl ShapeError}"
    by (auto dest: server_disc_update_Inl_computation)
next
  assume a: "assign_weights generator (generator_weights server_state) = Inr g0 \<and>
    assign_weights discriminator (discriminator_weights server_state) = Inr d0 \<and>
    map shape (discriminator_weights_delta client_output)
      = map (\<lambda>v. shape (val v)) discriminator"
  then have g0: "assign_weights generator (generator_weights server_state) = Inr g0"
    and d0: "assign_weights discriminator (discriminator_weights server_state) = Inr d0"
    by simp_all
  from a assign_weights_Inr(4) [OF d0]
  have "map shape (discriminator_weights_delta client_output)
          = map shape (discriminator_weights server_state)" by simp
  from server_disc_update_sgd [OF g0 d0 this, of lr]
  show "\<exists>d1. server_disc_update server_state client_output generator discriminator (SGD lr)
              = Inr (g0, d1)" by blast
qed

theorem delta_structure_check_witness:
  "(length (discriminator_weights_delta
       (zero_client_output\<lparr>discriminator_weights_delta := []\<rparr>)) \<noteq> length demo_discriminator \<and>
    server_computation demo_env demo_state [] (zero_client_output\<lparr>discriminator_weights_delta := []\<rparr>)
      demo_generator demo_discriminator (broadcasting_sgd (Num 1))
      (\<lambda>g d x. Inl CapabilityError) () \<in> {Inl StructureError, Inl ShapeError}) \<and>
   (map shape (discriminator_weights_delta scalar_delta_output)
      \<noteq> map (\<lambda>v. shape (val v)) demo_discriminator \<and>
    server_computation demo_env demo_state [] scalar_delta_output demo_generator
      demo_discriminator (SGD (Num 1)) (\<lambda>g d x. Inl CapabilityError) ()
      \<in> {Inl StructureError, Inl ShapeError}) \<and>
   (map shape (discriminator_weights_delta zero_client_output)
      = map (\<lambda>v. shape (val v)) demo_discriminator \<and>
    (\<exists>d1. server_disc_update demo_state zero_client_output demo_generator demo_discriminator
            (SGD (Num 1))
          = Inr ([\<lparr>val = \<lparr>shape = [1], elems = [Num 3]\<rparr>, trainable = True\<rparr>], d1)))"
proof -
  let ?f = "\<lambda>(g :: keras_model) (d :: keras_model) (x :: nat batch).
              (Inl CapabilityError :: error + keras_model \<times> keras_model \<times> int32)"
  have h1: "length (discriminator_weights_delta
       (zero_client_output\<lparr>discriminator_weights_delta := []\<rparr>)) \<noteq> length demo_discriminator"
    by (simp add: demo_discriminator_def)
  have h2: "map shape (discriminator_weights_delta scalar_delta_output)
      \<noteq> map (\<lambda>v. shape (val v)) demo_discriminator"
    by (simp add: scalar_delta_output_def demo_discriminator_def)
  have h3: "map shape (discriminator_weights_delta zero_client_output)
      = map (\<lambda>v. shape (val v)) demo_discriminator"
    by (simp add: zero_client_output_def demo_discriminator_def)
  from delta_structure_check [of "zero_client_output\<lparr>discriminator_weights_delta := []\<rparr>"
      demo_discriminator demo_env demo_state "[]" demo_generator "broadcasting_sgd (Num 1)"
      ?f "()"] h1
  have c1: "server_computation demo_env demo_state []
      (zero_client_output\<lparr>discriminator_weights_delta := []\<rparr>)
      demo_generator demo_discriminator (broadcasting_sgd (Num 1)) ?f ()
      \<in> {Inl StructureError, Inl ShapeError}" by blast
  from delta_structure_check [of scalar_delta_output demo_discriminator demo_env demo_state
      "[]" demo_generator _ ?f "()" "Num 1"] h2
  have c2: "server_computation demo_env demo_state [] scalar_delta_output demo_generator
      demo_discriminator (SGD (Num 1)) ?f () \<in> {Inl StructureError, Inl ShapeError}" by blast
  from delta_structure_check [of zero_client_output demo_discriminator demo_env demo_state
      "[]" demo_generator _ ?f "()" "Num 1"] h3 demo_state_generator demo_state_discriminator
  have c3: "\<exists>d1. server_disc_update demo_state zero_client_output demo_generator
      demo_discriminator (SGD (Num 1))
          = Inr ([\<lparr>val = \<lparr>shape = [1], elems = [Num 3]\<rparr>, trainable = True\<rparr>], d1)" by blast
  from h1 h2 h3 c1 c2 c3 show ?thesis by blast
qed

theorem delta_structure_check_counterexample:
  "map shape (discriminator_weights_delta scalar_delta_output)
     \<noteq> map (\<lambda>v. shape (val v)) demo_discriminator \<and>
   server_computation demo_env demo_state [] scalar_delta_output demo_generator
     demo_discriminator (broadcasting_sgd (Num 1)) (\<lambda>g d x. Inl CapabilityError) ()
   = Inr (\<lparr>generator_weights = [\<lparr>shape = [1], elems = [Num 3]\<rparr>],
           discriminator_weights =
             [\<lparr>shape = [2], elems = [Num 2, NegInf]\<rparr>, \<lparr>shape = [1], elems = [Num 5]\<rparr>],
           counters = [(''num_discriminator_train_examples'', 17),
                       (''num_generator_train_examples'', 20),
                       (''num_rounds'', 5)],
           aggregation_state = ()\<rparr>,
          [\<lparr>val = \<lparr>shape = [1], elems = [Num 3]\<rparr>, trainable = True\<rparr>],
          [\<lparr>val = \<lparr>shape = [2], elems = [Num 2, NegInf]\<rparr>, trainable = True\<rparr>,
           \<lparr>val = \<lparr>shape = [1], elems = [Num 5]\<rparr>, trainable = False\<rparr>])"
proof -
  have du: "server_disc_update demo_state scalar_delta_output demo_generator
              demo_discriminator (broadcasting_sgd (Num 1))
    = Inr ([\<lparr>val = \<lparr>shape = [1], elems = [Num 3]\<rparr>, trainable = True\<rparr>],
          [\<lparr>val = \<lparr>shape = [2], elems = [Num 2, NegInf]\<rparr>, trainable = True\<rparr>,
           \<lparr>val = \<lparr>shape = [1], elems = [Num 5]\<rparr>, trainable = False\<rparr>])"
    unfolding server_disc_update_def demo_state_generator demo_state_discriminator
    by (simp add: scalar_delta_output_def broadcasting_sgd_def sgd_update_def tf_scale_def
        f32_sub_def assign_weights_def)
  have "server_computation demo_env demo_state [] scalar_delta_output demo_generator
     demo_discriminator (broadcasting_sgd (Num 1)) (\<lambda>g d x. Inl CapabilityError) ()
   = Inr (\<lparr>generator_weights = [\<lparr>shape = [1], elems = [Num 3]\<rparr>],
           discriminator_weights =
             [\<lparr>shape = [2], elems = [Num 2, NegInf]\<rparr>, \<lparr>shape = [1], elems = [Num 5]\<rparr>],
           counters = [(''num_discriminator_train_examples'', 17),
                       (''num_generator_train_examples'', 20),
                       (''num_rounds'', 5)],
           aggregation_state = ()\<rparr>,
          [\<lparr>val = \<lparr>shape = [1], elems = [Num 3]\<rparr>, trainable = True\<rparr>],
          [\<lparr>val = \<lparr>shape = [2], elems = [Num 2, NegInf]\<rparr>, trainable = True\<rparr>,
           \<lparr>val = \<lparr>shape = [1], elems = [Num 5]\<rparr>, trainable = False\<rparr>])"
    unfolding server_computation_def
    by (simp add: du)
       (simp add: scalar_delta_output_def demo_state_def counter_add_def weights_read_def)
  then show ?thesis
    by (simp add: scalar_delta_output_def demo_discriminator_def)
qed

subsection \<open>The server round: returned counters\<close>

lemma key_present: "map_of c k = Some v \<Longrightarrow> k \<in> fst ` set c"
  by (auto dest: map_of_SomeD intro: rev_image_eqI)

lemma demo_disc_update:
  assumes "discriminator_weights_delta co = discriminator_weights_delta zero_client_output"
  shows "server_disc_update demo_state co demo_generator demo_discriminator (SGD (Num 1))
     = Inr ([\<lparr>val = \<lparr>shape = [1], elems = [Num 3]\<rparr>, trainable = True\<rparr>],
            [\<lparr>val = \<lparr>shape = [2], elems = [Num 1, NegInf]\<rparr>, trainable = True\<rparr>,
             \<lparr>val = \<lparr>shape = [1], elems = [Num 5]\<rparr>, trainable = False\<rparr>])"
  unfolding server_disc_update_def demo_state_generator demo_state_discriminator assms
  by (simp add: zero_client_output_def SGD_def sgd_update_def tf_scale_def
        f32_sub_def assign_weights_def)

lemma add_client_counters_Inr:
  assumes run: "add_client_counters c kvs = Inr c'" and dist: "distinct (map fst kvs)"
  shows "fst ` set kvs \<subseteq> fst ` set c" and "map fst c' = map fst c"
    and "map_of c' k =
           map_option (\<lambda>old. old + (case map_of kvs k of None \<Rightarrow> 0 | Some v \<Rightarrow> v))
             (map_of c k)"
proof -
  show sub: "fst ` set kvs \<subseteq> fst ` set c"
  proof (rule ccontr)
    assume "\<not> fst ` set kvs \<subseteq> fst ` set c"
    from add_client_counters_missing [OF this] run show False by auto
  qed
  from add_client_counters_total [OF dist sub] run
  show "map fst c' = map fst c"
    and "map_of c' k =
           map_option (\<lambda>old. old + (case map_of kvs k of None \<Rightarrow> 0 | Some v \<Rightarrow> v))
             (map_of c k)"
    by auto
qed

lemma server_computation_total:
  assumes du: "server_disc_update st co g d opt = Inr (g1, d1)"
    and loop: "server_loop (create_train_generator_fn env (WassersteinGanLossFns env (Num 10))
                 (SGD (Num (5 / 1000)))) g1 d1 ds 0 = Inr (g2, d2, n)"
    and dist: "distinct (map fst (co_counters co))"
    and sub: "fst ` set (co_counters co) \<subseteq> fst ` set (counters st)"
    and ex: "''num_generator_train_examples'' \<in> fst ` set (counters st)"
    and ro: "''num_rounds'' \<in> fst ` set (counters st)"
  shows "\<exists>st'. server_computation env st ds co g d opt f nas = Inr (st', g2, d2) \<and>
           map fst (counters st') = map fst (counters st) \<and>
           (\<forall>k. map_of (counters st') k =
              map_option (\<lambda>old. old + client_counter co k + round_increment ds k)
                (map_of (counters st) k)) \<and>
           aggregation_state st' = nas \<and>
           generator_weights st' = weights_read g2 \<and>
           discriminator_weights st' = weights_read d2"
proof -
  from add_client_counters_total [OF dist sub] obtain c1 where
    c1: "add_client_counters (counters st) (co_counters co) = Inr c1"
    and k1: "map fst c1 = map fst (counters st)"
    and v1: "\<And>k. map_of c1 k = map_option (\<lambda>old. old + client_counter co k)
                                   (map_of (counters st) k)"
    unfolding client_counter_def by blast
  from server_loop_Inr [OF loop] have n: "n = of_nat (examples_in ds)" by simp
  from ex k1 have "''num_generator_train_examples'' \<in> fst ` set c1" by (metis set_map)
  then obtain e where e: "map_of c1 ''num_generator_train_examples'' = Some e"
    by (metis domD dom_map_of_conv_image_fst)
  let ?c2 = "AList.update ''num_generator_train_examples'' (e + of_nat (examples_in ds)) c1"
  from counter_add_Some [OF e]
  have a2: "counter_add c1 ''num_generator_train_examples'' (of_nat (examples_in ds)) = Inr ?c2" .
  note c2 = counter_add_Inr [OF a2]
  from ro k1 c2(1) have "''num_rounds'' \<in> fst ` set ?c2" by (metis set_map)
  then obtain r where r: "map_of ?c2 ''num_rounds'' = Some r"
    by (metis domD dom_map_of_conv_image_fst)
  let ?c3 = "AList.update ''num_rounds'' (r + 1) ?c2"
  from counter_add_Some [OF r] have a3: "counter_add ?c2 ''num_rounds'' 1 = Inr ?c3" .
  note c3 = counter_add_Inr [OF a3]
  have run: "server_computation env st ds co g d opt f nas =
     Inr (st\<lparr>counters := ?c3, aggregation_state := nas,
              generator_weights := weights_read g2,
              discriminator_weights := weights_read d2\<rparr>, g2, d2)"
    using du c1 loop n a2 a3 by (simp add: server_computation_def)
  have vals: "map_of ?c3 k =
      map_option (\<lambda>old. old + client_counter co k + round_increment ds k)
        (map_of (counters st) k)" for k
    using c3(2) [of k] c2(2) [of k] v1 [of k]
    by (cases "map_of (counters st) k")
       (auto simp: round_increment_def option.map_comp comp_def)
  from run c3(1) c2(1) k1 vals show ?thesis by simp
qed

lemma server_computation_Inr:
  assumes run: "server_computation env st ds co g d opt f nas = Inr (st', g2, d2)"
    and dist: "distinct (map fst (co_counters co))"
  shows "fst ` set (co_counters co) \<subseteq> fst ` set (counters st)"
    and "map fst (counters st') = map fst (counters st)"
    and "map_of (counters st') k =
           map_option (\<lambda>old. old + client_counter co k + round_increment ds k)
             (map_of (counters st) k)"
    and "''num_generator_train_examples'' \<in> fst ` set (counters st)"
    and "''num_rounds'' \<in> fst ` set (counters st)"
proof -
  from run obtain g1 d1 c1 n c2 c3 where
    du: "server_disc_update st co g d opt = Inr (g1, d1)"
    and cc: "add_client_counters (counters st) (co_counters co) = Inr c1"
    and loop: "server_loop (create_train_generator_fn env (WassersteinGanLossFns env (Num 10))
                 (SGD (Num (5 / 1000)))) g1 d1 ds 0 = Inr (g2, d2, n)"
    and a2: "counter_add c1 ''num_generator_train_examples'' n = Inr c2"
    and a3: "counter_add c2 ''num_rounds'' 1 = Inr c3"
    by (auto simp: server_computation_def Let_def split: sum.splits)
  note C = add_client_counters_Inr [OF cc dist]
  show sub: "fst ` set (co_counters co) \<subseteq> fst ` set (counters st)" by (rule C(1))
  from a2 obtain e where "map_of c1 ''num_generator_train_examples'' = Some e"
    by (auto simp: counter_add_def split: option.splits)
  then have "''num_generator_train_examples'' \<in> fst ` set c1" by (rule key_present)
  with C(2) show ex: "''num_generator_train_examples'' \<in> fst ` set (counters st)"
    by (metis set_map)
  from a3 obtain r where "map_of c2 ''num_rounds'' = Some r"
    by (auto simp: counter_add_def split: option.splits)
  then have "''num_rounds'' \<in> fst ` set c2" by (rule key_present)
  with counter_add_Inr(1) [OF a2] C(2)
  show ro: "''num_rounds'' \<in> fst ` set (counters st)" by (metis set_map)
  from server_computation_total [OF du loop dist sub ex ro, of f nas] run
  show "map fst (counters st') = map fst (counters st)"
    and "map_of (counters st') k =
           map_option (\<lambda>old. old + client_counter co k + round_increment ds k)
             (map_of (counters st) k)"
    by auto
qed

lemma demo_server_loop:
  "server_loop (create_train_generator_fn demo_env (WassersteinGanLossFns demo_env (Num 10))
      (SGD (Num (5 / 1000))))
     [\<lparr>val = \<lparr>shape = [1], elems = [Num 3]\<rparr>, trainable = True\<rparr>]
     [\<lparr>val = \<lparr>shape = [2], elems = [Num 1, NegInf]\<rparr>, trainable = True\<rparr>,
      \<lparr>val = \<lparr>shape = [1], elems = [Num 5]\<rparr>, trainable = False\<rparr>]
     [[1, 2], [3]] 0
   = Inr ([\<lparr>val = \<lparr>shape = [1], elems = [Num (299 / 100)]\<rparr>, trainable = True\<rparr>],
          [\<lparr>val = \<lparr>shape = [2], elems = [Num 1, NegInf]\<rparr>, trainable = True\<rparr>,
           \<lparr>val = \<lparr>shape = [1], elems = [Num 5]\<rparr>, trainable = False\<rparr>], 3)"
  by (simp add: create_train_generator_fn_def minimize_def SGD_def sgd_update_def demo_env_def
        ones_like_def trainable_variables_def batch_size_def f32_sub_def)

text \<open>
  Claim C1, amended. Whenever one call of \<open>server_computation\<close> returns a state, the state
  passed in has the counters \<open>num_rounds\<close> and \<open>num_generator_train_examples\<close>, and in the
  returned state \<open>num_rounds\<close> is the old value plus 1 plus the client output's own counter
  of that name (0 if it has none), and \<open>num_generator_train_examples\<close> is the old value
  plus the sum of the leading dimensions of the batches of \<open>gen_inputs_ds\<close> plus the client
  output's own counter of that name (0 if it has none); the additions are those of int32.
  The keys of the client output's counters are distinct, as those of a dictionary are.
\<close>

theorem round_counters:
  assumes "server_computation env server_state gen_inputs_ds client_output generator
             discriminator opt f new_aggregation_state = Inr (st', g2, d2)"
    and "distinct (map fst (co_counters client_output))"
  shows "\<exists>r e.
     map_of (counters server_state) ''num_rounds'' = Some r \<and>
     map_of (counters server_state) ''num_generator_train_examples'' = Some e \<and>
     map_of (counters st') ''num_rounds''
       = Some (r + client_counter client_output ''num_rounds'' + 1) \<and>
     map_of (counters st') ''num_generator_train_examples''
       = Some (e + client_counter client_output ''num_generator_train_examples''
                 + of_nat (sum_list (map length gen_inputs_ds)))"
proof -
  note R = server_computation_Inr [OF assms]
  from R(5) obtain r where r: "map_of (counters server_state) ''num_rounds'' = Some r"
    by (metis domD dom_map_of_conv_image_fst)
  from R(4) obtain e where
    e: "map_of (counters server_state) ''num_generator_train_examples'' = Some e"
    by (metis domD dom_map_of_conv_image_fst)
  from R(3) [of "''num_rounds''"] r
  have a: "map_of (counters st') ''num_rounds''
       = Some (r + client_counter client_output ''num_rounds'' + 1)"
    by (simp add: round_increment_def)
  from R(3) [of "''num_generator_train_examples''"] e
  have b: "map_of (counters st') ''num_generator_train_examples''
       = Some (e + client_counter client_output ''num_generator_train_examples''
                 + of_nat (sum_list (map length gen_inputs_ds)))"
    by (simp add: round_increment_def examples_in_def)
  from r e a b show ?thesis by blast
qed

theorem round_counters_witness:
  "\<exists>st' g2 d2.
     server_computation demo_env demo_state [[1, 2], [3]] zero_client_output demo_generator
       demo_discriminator (SGD (Num 1)) (\<lambda>g d x. Inl CapabilityError) ()
       = Inr (st', g2, d2) \<and>
     distinct (map fst (co_counters zero_client_output)) \<and>
     map_of (counters demo_state) ''num_rounds'' = Some 4 \<and>
     map_of (counters demo_state) ''num_generator_train_examples'' = Some 20 \<and>
     map_of (counters st') ''num_rounds'' = Some 5 \<and>
     map_of (counters st') ''num_generator_train_examples'' = Some 23"
proof -
  let ?f = "\<lambda>(g :: keras_model) (d :: keras_model) (x :: nat batch).
              (Inl CapabilityError :: error + keras_model \<times> keras_model \<times> int32)"
  have dist: "distinct (map fst (co_counters zero_client_output))"
    and sub: "fst ` set (co_counters zero_client_output) \<subseteq> fst ` set (counters demo_state)"
    and ex: "''num_generator_train_examples'' \<in> fst ` set (counters demo_state)"
    and ro: "''num_rounds'' \<in> fst ` set (counters demo_state)"
    and r: "map_of (counters demo_state) ''num_rounds'' = Some 4"
    and e: "map_of (counters demo_state) ''num_generator_train_examples'' = Some 20"
    by (simp_all add: zero_client_output_def demo_state_def)
  have cc: "client_counter zero_client_output ''num_rounds'' = 0"
    "client_counter zero_client_output ''num_generator_train_examples'' = 0"
    by (simp_all add: client_counter_def zero_client_output_def)
  from server_computation_total [OF demo_disc_update [OF refl] demo_server_loop dist sub ex ro,
      where f = ?f and nas = "()"]
  obtain st' g2 d2 where
    run: "server_computation demo_env demo_state [[1, 2], [3]] zero_client_output
            demo_generator demo_discriminator (SGD (Num 1)) ?f () = Inr (st', g2, d2)"
    by blast
  from round_counters [OF run dist] r e cc
  have "map_of (counters st') ''num_rounds'' = Some 5"
    and "map_of (counters st') ''num_generator_train_examples'' = Some 23"
    by auto
  with run dist r e show ?thesis by blast
qed

theorem round_counters_counterexample:
  "map_of (counters demo_state) ''num_rounds'' = Some 4 \<and>
   returned_counter ''num_rounds''
     (server_computation demo_env demo_state [[1, 2], [3]] rounds_client_output demo_generator
        demo_discriminator (SGD (Num 1)) (\<lambda>g d x. Inl CapabilityError) ()) = Some 10 \<and>
   (10 :: int32) \<noteq> 4 + 1"
proof -
  let ?f = "\<lambda>(g :: keras_model) (d :: keras_model) (x :: nat batch).
              (Inl CapabilityError :: error + keras_model \<times> keras_model \<times> int32)"
  have r: "map_of (counters demo_state) ''num_rounds'' = Some 4"
    by (simp add: demo_state_def)
  have delta: "discriminator_weights_delta rounds_client_output
                 = discriminator_weights_delta zero_client_output"
    by (simp add: rounds_client_output_def)
  have dist: "distinct (map fst (co_counters rounds_client_output))"
    and sub: "fst ` set (co_counters rounds_client_output) \<subseteq> fst ` set (counters demo_state)"
    and ex: "''num_generator_train_examples'' \<in> fst ` set (counters demo_state)"
    and ro: "''num_rounds'' \<in> fst ` set (counters demo_state)"
    by (simp_all add: rounds_client_output_def demo_state_def)
  from server_computation_total [OF demo_disc_update [OF delta] demo_server_loop dist sub ex ro,
      where f = ?f and nas = "()"]
  obtain st' g2 d2 where
    run: "server_computation demo_env demo_state [[1, 2], [3]] rounds_client_output
            demo_generator demo_discriminator (SGD (Num 1)) ?f () = Inr (st', g2, d2)"
    and vals: "\<And>k. map_of (counters st') k =
              map_option (\<lambda>old. old + client_counter rounds_client_output k
                                    + round_increment [[1, 2], [3 :: nat]] k)
                (map_of (counters demo_state) k)" by blast
  from vals [of "''num_rounds''"] r
  have "map_of (counters st') ''num_rounds'' = Some 10"
    by (simp add: client_counter_def rounds_client_output_def round_increment_def)
  with run r show ?thesis by (simp add: returned_counter_def)
qed

text \<open>
  Claim C7, amended. Whenever \<open>server_computation\<close> returns a state, every key of
  \<open>client_output.counters\<close> was already a key of the state's counters, the returned
  counter at each such key is the prior value plus the client's value, plus the round's own
  increment when the key is \<open>num_generator_train_examples\<close> or \<open>num_rounds\<close>, and no key
  has been added. When some key of the client output is absent from the state's counters,
  nothing is created: the call raises \<open>KeyError\<close> for such a key.
\<close>

theorem client_counters_summed:
  "(server_computation env server_state gen_inputs_ds client_output generator discriminator
      opt f new_aggregation_state = Inr (st', g2, d2) \<and>
    distinct (map fst (co_counters client_output)) \<longrightarrow>
    fst ` set (co_counters client_output) \<subseteq> fst ` set (counters server_state) \<and>
    map fst (counters st') = map fst (counters server_state) \<and>
    (\<forall>k v. (k, v) \<in> set (co_counters client_output) \<longrightarrow>
       (\<exists>old. map_of (counters server_state) k = Some old \<and>
              map_of (counters st') k
                = Some (old + v
                        + (if k = ''num_generator_train_examples''
                           then of_nat (sum_list (map length gen_inputs_ds)) else 0)
                        + (if k = ''num_rounds'' then 1 else 0))))) \<and>
   (server_disc_update server_state client_output generator discriminator opt = Inr (g1, d1) \<and>
    \<not> fst ` set (co_counters client_output) \<subseteq> fst ` set (counters server_state) \<longrightarrow>
    (\<exists>k. server_computation env server_state gen_inputs_ds client_output generator discriminator
           opt f new_aggregation_state = Inl (KeyError k) \<and>
         k \<in> fst ` set (co_counters client_output) \<and> k \<notin> fst ` set (counters server_state)))"
proof (intro conjI impI)
  assume a: "server_computation env server_state gen_inputs_ds client_output generator
      discriminator opt f new_aggregation_state = Inr (st', g2, d2) \<and>
    distinct (map fst (co_counters client_output))"
  then have run: "server_computation env server_state gen_inputs_ds client_output generator
      discriminator opt f new_aggregation_state = Inr (st', g2, d2)"
    and dist: "distinct (map fst (co_counters client_output))" by simp_all
  note R = server_computation_Inr [OF run dist]
  show "fst ` set (co_counters client_output) \<subseteq> fst ` set (counters server_state)"
    by (rule R(1))
  show "map fst (counters st') = map fst (counters server_state)" by (rule R(2))
  have "\<exists>old. map_of (counters server_state) k = Some old \<and>
              map_of (counters st') k
                = Some (old + v
                        + (if k = ''num_generator_train_examples''
                           then of_nat (sum_list (map length gen_inputs_ds)) else 0)
                        + (if k = ''num_rounds'' then 1 else 0))"
    if kv: "(k, v) \<in> set (co_counters client_output)" for k v
  proof -
    from kv dist have cv: "client_counter client_output k = v"
      by (simp add: client_counter_def)
    from kv have "k \<in> fst ` set (co_counters client_output)" by (rule rev_image_eqI) simp
    with R(1) have "k \<in> fst ` set (counters server_state)" by (rule subsetD)
    then obtain old where old: "map_of (counters server_state) k = Some old"
      by (metis domD dom_map_of_conv_image_fst)
    with R(3) [of k] cv show ?thesis
      by (simp add: round_increment_def examples_in_def add.assoc)
  qed
  then show "\<forall>k v. (k, v) \<in> set (co_counters client_output) \<longrightarrow>
       (\<exists>old. map_of (counters server_state) k = Some old \<and>
              map_of (counters st') k
                = Some (old + v
                        + (if k = ''num_generator_train_examples''
                           then of_nat (sum_list (map length gen_inputs_ds)) else 0)
                        + (if k = ''num_rounds'' then 1 else 0)))"
    by (intro allI impI)
next
  assume b: "server_disc_update server_state client_output generator discriminator opt
            = Inr (g1, d1) \<and>
    \<not> fst ` set (co_counters client_output) \<subseteq> fst ` set (counters server_state)"
  from server_computation_key_error [OF conjunct1 [OF b] conjunct2 [OF b]]
  show "\<exists>k. server_computation env server_state gen_inputs_ds client_output generator
           discriminator opt f new_aggregation_state = Inl (KeyError k) \<and>
         k \<in> fst ` set (co_counters client_output) \<and> k \<notin> fst ` set (counters server_state)"
    .
qed

theorem client_counters_summed_witness:
  "(\<exists>st' g2 d2.
      server_computation demo_env demo_state [[1, 2], [3]] seven_client_output demo_generator
        demo_discriminator (SGD (Num 1)) (\<lambda>g d x. Inl CapabilityError) ()
        = Inr (st', g2, d2) \<and>
      distinct (map fst (co_counters seven_client_output)) \<and>
      map_of (counters demo_state) ''num_discriminator_train_examples'' = Some 10 \<and>
      map_of (counters st') ''num_discriminator_train_examples'' = Some 17 \<and>
      map fst (counters st') = map fst (counters demo_state)) \<and>
   (\<not> fst ` set (co_counters new_metric_output) \<subseteq> fst ` set (counters demo_state) \<and>
    (\<exists>k. server_computation demo_env demo_state [[1, 2], [3]] new_metric_output demo_generator
           demo_discriminator (SGD (Num 1)) (\<lambda>g d x. Inl CapabilityError) ()
         = Inl (KeyError k)))"
proof -
  let ?f = "\<lambda>(g :: keras_model) (d :: keras_model) (x :: nat batch).
              (Inl CapabilityError :: error + keras_model \<times> keras_model \<times> int32)"
  let ?d1 = "[\<lparr>val = \<lparr>shape = [2], elems = [Num 1, NegInf]\<rparr>, trainable = True\<rparr>,
               \<lparr>val = \<lparr>shape = [1], elems = [Num 5]\<rparr>, trainable = False\<rparr>]"
  have d7: "discriminator_weights_delta seven_client_output
              = discriminator_weights_delta zero_client_output"
    and dn: "discriminator_weights_delta new_metric_output
              = discriminator_weights_delta zero_client_output"
    by (simp_all add: seven_client_output_def new_metric_output_def)
  have dist: "distinct (map fst (co_counters seven_client_output))"
    and sub: "fst ` set (co_counters seven_client_output) \<subseteq> fst ` set (counters demo_state)"
    and ex: "''num_generator_train_examples'' \<in> fst ` set (counters demo_state)"
    and ro: "''num_rounds'' \<in> fst ` set (counters demo_state)"
    and mem: "(''num_discriminator_train_examples'', 7) \<in> set (co_counters seven_client_output)"
    and old: "map_of (counters demo_state) ''num_discriminator_train_examples'' = Some 10"
    by (simp_all add: seven_client_output_def demo_state_def)
  have nsub: "\<not> fst ` set (co_counters new_metric_output) \<subseteq> fst ` set (counters demo_state)"
    by (simp add: new_metric_output_def demo_state_def)
  from server_computation_total [OF demo_disc_update [OF d7] demo_server_loop dist sub ex ro,
      where f = ?f and nas = "()"]
  obtain st' g2 d2 where
    run: "server_computation demo_env demo_state [[1, 2], [3]] seven_client_output
            demo_generator demo_discriminator (SGD (Num 1)) ?f () = Inr (st', g2, d2)"
    by blast
  note A = client_counters_summed [where env = demo_env and server_state = demo_state
      and gen_inputs_ds = "[[1, 2], [3]]" and client_output = seven_client_output
      and generator = demo_generator and discriminator = demo_discriminator
      and opt = "SGD (Num 1)" and f = ?f and new_aggregation_state = "()"
      and st' = st' and ?g2.0 = g2 and ?d2.0 = d2,
      THEN conjunct1, rule_format, OF conjI [OF run dist]]
  from A have keys: "map fst (counters st') = map fst (counters demo_state)" by simp
  from A mem old
  have "map_of (counters st') ''num_discriminator_train_examples'' = Some 17" by fastforce
  with run dist old keys have first: "\<exists>st' g2 d2.
      server_computation demo_env demo_state [[1, 2], [3]] seven_client_output demo_generator
        demo_discriminator (SGD (Num 1)) ?f () = Inr (st', g2, d2) \<and>
      distinct (map fst (co_counters seven_client_output)) \<and>
      map_of (counters demo_state) ''num_discriminator_train_examples'' = Some 10 \<and>
      map_of (counters st') ''num_discriminator_train_examples'' = Some 17 \<and>
      map fst (counters st') = map fst (counters demo_state)" by blast
  note B = client_counters_summed [where env = demo_env and server_state = demo_state
      and gen_inputs_ds = "[[1, 2], [3]]" and client_output = new_metric_output
      and generator = demo_generator and discriminator = demo_discriminator
      and opt = "SGD (Num 1)" and f = ?f and new_aggregation_state = "()"
      and ?d1.0 = ?d1,
      THEN conjunct2, rule_format, OF conjI [OF demo_disc_update [OF dn] nsub]]
  then have second: "\<exists>k. server_computation demo_env demo_state [[1, 2], [3]]
      new_metric_output demo_generator demo_discriminator (SGD (Num 1)) ?f ()
         = Inl (KeyError k)" by blast
  from first nsub second show ?thesis by blast
qed

theorem client_counters_summed_counterexample:
  "(''new_metric'', 1) \<in> set (co_counters new_metric_output) \<and>
   map_of (counters demo_state) ''new_metric'' = None \<and>
   server_computation demo_env demo_state [[1, 2], [3]] new_metric_output demo_generator
     demo_discriminator (SGD (Num 1)) (\<lambda>g d x. Inl CapabilityError) ()
   = Inl (KeyError ''new_metric'')"
proof -
  have dn: "discriminator_weights_delta new_metric_output
              = discriminator_weights_delta zero_client_output"
    by (simp add: new_metric_output_def)
  have "server_computation demo_env demo_state [[1, 2], [3]] new_metric_output demo_generator
     demo_discriminator (SGD (Num 1)) (\<lambda>g d x. Inl CapabilityError) ()
   = Inl (KeyError ''new_metric'')"
    unfolding server_computation_def
    by (simp add: demo_disc_update [OF dn])
       (simp add: new_metric_output_def demo_state_def counter_add_def)
  then show ?thesis by (simp add: new_metric_output_def demo_state_def)
qed

text \<open>
  Claim C9. The result of \<open>client_computation\<close> does not depend on its
  \<open>train_discriminator_fn\<close> argument, nor that of \<open>server_computation\<close> on its
  \<open>train_generator_fn\<close> argument: both build their own step from the Wasserstein losses
  with gradient-penalty coefficient 10 and a fresh SGD optimizer, and never call the
  argument. Their results depend on the environment only through the loss functions it
  builds for the coefficient 10 and through its gradient computation.
\<close>

theorem train_fn_arguments_ignored:
  "client_computation env gen_inputs_ds real_data_ds from_server generator discriminator f
     = client_computation env gen_inputs_ds real_data_ds from_server generator discriminator f'
   \<and>
   server_computation env server_state gen_inputs_ds client_output generator discriminator
       opt h new_aggregation_state
     = server_computation env server_state gen_inputs_ds client_output generator discriminator
         opt h' new_aggregation_state
   \<and>
   (WassersteinGanLossFns env (Num 10) = WassersteinGanLossFns env' (Num 10) \<and>
    gradient env = gradient env' \<longrightarrow>
      client_computation env gen_inputs_ds real_data_ds from_server generator discriminator f
        = client_computation env' gen_inputs_ds real_data_ds from_server generator
            discriminator f' \<and>
      server_computation env server_state gen_inputs_ds client_output generator discriminator
          opt h new_aggregation_state
        = server_computation env' server_state gen_inputs_ds client_output generator
            discriminator opt h' new_aggregation_state)"
proof (intro conjI impI)
  show "client_computation env gen_inputs_ds real_data_ds from_server generator discriminator f
     = client_computation env gen_inputs_ds real_data_ds from_server generator discriminator f'"
    by (simp add: client_computation_def)
  show "server_computation env server_state gen_inputs_ds client_output generator discriminator
       opt h new_aggregation_state
     = server_computation env server_state gen_inputs_ds client_output generator discriminator
         opt h' new_aggregation_state"
    by (simp add: server_computation_def)
next
  assume same: "WassersteinGanLossFns env (Num 10) = WassersteinGanLossFns env' (Num 10) \<and>
    gradient env = gradient env'"
  then have min: "minimize env = minimize env'"
    by (simp add: fun_eq_iff minimize_def)
  with same have d: "create_train_discriminator_fn env (WassersteinGanLossFns env (Num 10)) p
        = create_train_discriminator_fn env' (WassersteinGanLossFns env' (Num 10)) p"
    and g: "create_train_generator_fn env (WassersteinGanLossFns env (Num 10)) p
        = create_train_generator_fn env' (WassersteinGanLossFns env' (Num 10)) p" for p
    by (simp_all add: create_train_discriminator_fn_def create_train_generator_fn_def)
  have "client_train env gen_inputs_ds real_data_ds from_server generator discriminator
      = client_train env' gen_inputs_ds real_data_ds from_server generator discriminator"
    by (simp add: client_train_def Let_def d cong: sum.case_cong)
  then show "client_computation env gen_inputs_ds real_data_ds from_server generator
        discriminator f
        = client_computation env' gen_inputs_ds real_data_ds from_server generator
            discriminator f'"
    by (simp add: client_computation_def)
  show "server_computation env server_state gen_inputs_ds client_output generator
          discriminator opt h new_aggregation_state
        = server_computation env' server_state gen_inputs_ds client_output generator
            discriminator opt h' new_aggregation_state"
    by (simp add: server_computation_def Let_def g cong: sum.case_cong)
qed

theorem train_fn_arguments_ignored_witness:
  "WassersteinGanLossFns demo_env (Num 10) = WassersteinGanLossFns demo_env_other (Num 10) \<and>
   gradient demo_env = gradient demo_env_other \<and>
   WassersteinGanLossFns demo_env (Num 1) \<noteq> WassersteinGanLossFns demo_env_other (Num 1) \<and>
   client_computation demo_env [[1, 2, 3], [4]] [[7, 8]] demo_from_server demo_generator
     demo_discriminator (\<lambda>g d x y. Inl CapabilityError)
   = client_computation demo_env_other [[1, 2, 3], [4]] [[7, 8]] demo_from_server
       demo_generator demo_discriminator (\<lambda>g d x y. Inr (g, d, 0)) \<and>
   server_computation demo_env demo_state [[1, 2, 3], [4]] zero_client_output demo_generator
     demo_discriminator (SGD (Num 1)) (\<lambda>g d x. Inl CapabilityError) ()
   = server_computation demo_env_other demo_state [[1, 2, 3], [4]] zero_client_output
       demo_generator demo_discriminator (SGD (Num 1)) (\<lambda>g d x. Inr (g, d, 0)) ()"
proof -
  have a: "WassersteinGanLossFns demo_env (Num 10)
             = WassersteinGanLossFns demo_env_other (Num 10)"
    and b: "gradient demo_env = gradient demo_env_other"
    by (simp_all add: demo_env_other_def)
  have c: "WassersteinGanLossFns demo_env (Num 1) \<noteq> WassersteinGanLossFns demo_env_other (Num 1)"
  proof
    assume "WassersteinGanLossFns demo_env (Num 1) = WassersteinGanLossFns demo_env_other (Num 1)"
    then have "generator_loss (WassersteinGanLossFns demo_env (Num 1)) [] [] []
        = generator_loss (WassersteinGanLossFns demo_env_other (Num 1)) [] [] []" by simp
    then show False by (simp add: demo_env_other_def demo_env_def)
  qed
  from train_fn_arguments_ignored [where env = demo_env and env' = demo_env_other
      and gen_inputs_ds = "[[1, 2, 3], [4]]" and real_data_ds = "[[7, 8]]"
      and from_server = demo_from_server and generator = demo_generator
      and discriminator = demo_discriminator
      and f = "\<lambda>g d x y. Inl CapabilityError" and f' = "\<lambda>g d x y. Inr (g, d, 0)"
      and server_state = demo_state and client_output = zero_client_output
      and opt = "SGD (Num 1)" and h = "\<lambda>g d x. Inl CapabilityError"
      and h' = "\<lambda>g d x. Inr (g, d, 0)" and new_aggregation_state = "()"] a b c
  show ?thesis by blast
qed

subsection \<open>The server round over the store\<close>

lemma writes_fresh_init:
  "writes_fresh h
     (fst (alloc_object (fst (alloc_dict h c)) (obj\<lparr>obj_counters := snd (alloc_dict h c)\<rparr>)))
     (length (objects h))"
  by (simp add: writes_fresh_def alloc_object_def alloc_dict_def)

lemma counter_add_store_fresh:
  assumes "counter_add_store h a k v = (h', r)" and "writes_fresh h0 h a"
  shows "writes_fresh h0 h' a"
  using assms
  by (auto simp: counter_add_store_def writes_fresh_def Let_def split: sum.splits)

lemma add_client_counters_store_fresh:
  "add_client_counters_store h a kvs = (h', r) \<Longrightarrow> writes_fresh h0 h a \<Longrightarrow>
   writes_fresh h0 h' a"
proof (induction kvs arbitrary: h)
  case Nil
  then show ?case by simp
next
  case (Cons kv kvs)
  obtain k v where kv: "kv = (k, v)" by (cases kv)
  obtain h1 r1 where step: "counter_add_store h a k v = (h1, r1)"
    by (cases "counter_add_store h a k v")
  note f1 = counter_add_store_fresh [OF step Cons.prems(2)]
  show ?case
  proof (cases r1)
    case None
    with Cons.prems(1) kv step have "add_client_counters_store h1 a kvs = (h', r)" by simp
    from Cons.IH [OF this f1] show ?thesis .
  next
    case (Some e)
    with Cons.prems(1) kv step have "h' = h1" by simp
    with f1 show ?thesis by simp
  qed
qed

lemma set_aggregation_state_fresh:
  "writes_fresh h0 h a \<Longrightarrow> writes_fresh h0 (set_aggregation_state h a s) a"
  by (simp add: writes_fresh_def set_aggregation_state_def)

lemma set_generator_weights_fresh:
  "writes_fresh h0 h a \<Longrightarrow> writes_fresh h0 (set_generator_weights h a ws) a"
  by (simp add: writes_fresh_def set_generator_weights_def)

lemma set_discriminator_weights_fresh:
  "writes_fresh h0 h a \<Longrightarrow> writes_fresh h0 (set_discriminator_weights h a ws) a"
  by (simp add: writes_fresh_def set_discriminator_weights_def)

lemma alloc_weight_list_fresh:
  "writes_fresh h0 h a \<Longrightarrow> writes_fresh h0 (fst (alloc_weight_list h ws)) a"
  by (simp add: writes_fresh_def alloc_weight_list_def)

lemma state_value_init:
  "state_value
     (fst (alloc_object (fst (alloc_dict h (dicts h ! obj_counters (objects h ! a))))
        ((objects h ! a)\<lparr>obj_counters := snd (alloc_dict h (dicts h ! obj_counters (objects h ! a)))\<rparr>)))
     (length (objects h))
   = state_value h a"
  by (simp add: state_value_def alloc_object_def alloc_dict_def Let_def)

lemma counter_add_store_value:
  assumes "counter_add_store h a k v = (h', r)" and "writes_fresh h0 h a"
  shows "case r of
           Some e \<Rightarrow> counter_add (counters (state_value h a)) k v = Inl e
         | None \<Rightarrow> (\<exists>c'. counter_add (counters (state_value h a)) k v = Inr c' \<and>
                          state_value h' a = (state_value h a)\<lparr>counters := c'\<rparr>)"
  using assms
  by (auto simp: counter_add_store_def writes_fresh_def state_value_def Let_def
           split: sum.splits)

lemma add_client_counters_store_value:
  "add_client_counters_store h a kvs = (h', r) \<Longrightarrow> writes_fresh h0 h a \<Longrightarrow>
   (case r of
      Some e \<Rightarrow> add_client_counters (counters (state_value h a)) kvs = Inl e
    | None \<Rightarrow> (\<exists>c'. add_client_counters (counters (state_value h a)) kvs = Inr c' \<and>
                      state_value h' a = (state_value h a)\<lparr>counters := c'\<rparr>))"
proof (induction kvs arbitrary: h)
  case Nil
  then show ?case by simp
next
  case (Cons kv kvs)
  obtain k v where kv: "kv = (k, v)" by (cases kv)
  obtain h1 r1 where step: "counter_add_store h a k v = (h1, r1)"
    by (cases "counter_add_store h a k v")
  note f1 = counter_add_store_fresh [OF step Cons.prems(2)]
  note v1 = counter_add_store_value [OF step Cons.prems(2)]
  show ?case
  proof (cases r1)
    case None
    with Cons.prems(1) kv step have rest: "add_client_counters_store h1 a kvs = (h', r)"
      by simp
    from v1 None obtain c1 where a1: "counter_add (counters (state_value h a)) k v = Inr c1"
      and s1: "state_value h1 a = (state_value h a)\<lparr>counters := c1\<rparr>"
      by auto
    from Cons.IH [OF rest f1] a1 s1 kv show ?thesis
      by (cases r) auto
  next
    case (Some e)
    with Cons.prems(1) kv step have "h' = h1" "r = Some e" by simp_all
    with v1 Some kv show ?thesis by simp
  qed
qed

lemma set_aggregation_state_value:
  "writes_fresh h0 h a \<Longrightarrow>
   state_value (set_aggregation_state h a s) a = (state_value h a)\<lparr>aggregation_state := s\<rparr>"
  by (simp add: writes_fresh_def set_aggregation_state_def state_value_def Let_def)

lemma snapshot_value:
  assumes "writes_fresh h0 h a"
  shows "state_value
     (set_discriminator_weights
        (fst (alloc_weight_list
                (set_generator_weights (fst (alloc_weight_list h gs)) a
                   (snd (alloc_weight_list h gs))) ds)) a
        (snd (alloc_weight_list
                (set_generator_weights (fst (alloc_weight_list h gs)) a
                   (snd (alloc_weight_list h gs))) ds))) a
   = (state_value h a)\<lparr>generator_weights := gs, discriminator_weights := ds\<rparr>"
  using assms
  by (simp add: writes_fresh_def set_discriminator_weights_def set_generator_weights_def
      alloc_weight_list_def state_value_def Let_def nth_append)

lemma server_computation_store_run:
  assumes "server_computation_store env h server_state ds co g d opt f nas = (h', result)"
  shows "writes_fresh h h' (length (objects h)) \<and>
         (\<forall>a' g' d'. result = Inr (a', g', d') \<longrightarrow> a' = length (objects h)) \<and>
         server_computation env (state_value h server_state) ds co g d opt f nas
           = (case result of
                Inl e \<Rightarrow> Inl e
              | Inr (a', g', d') \<Rightarrow> Inr (state_value h' a', g', d'))"
proof -
  let ?old = "objects h ! server_state"
  let ?h2 = "fst (alloc_object (fst (alloc_dict h (dicts h ! obj_counters ?old)))
                (?old\<lparr>obj_counters := snd (alloc_dict h (dicts h ! obj_counters ?old))\<rparr>))"
  let ?a = "length (objects h)"
  let ?V = "state_value h server_state"
  have a: "snd (alloc_object (fst (alloc_dict h c)) obj) = ?a" for c obj
    by (simp add: alloc_object_def alloc_dict_def)
  have f2: "writes_fresh h ?h2 ?a" by (rule writes_fresh_init)
  have v2: "state_value ?h2 ?a = ?V" by (rule state_value_init)
  show ?thesis
  proof (cases "server_disc_update (state_value ?h2 ?a) co g d opt")
    case (Inl e)
    with v2 have duV: "server_disc_update ?V co g d opt = Inl e" by simp
    from assms a f2 Inl have "h' = ?h2" "result = Inl e"
      by (auto simp: server_computation_store_def split_beta Let_def)
    with f2 duV show ?thesis by (simp add: server_computation_def)
  next
    case (Inr gd)
    obtain g1 d1 where gd: "gd = (g1, d1)" by (cases gd)
    from Inr gd v2 have duV: "server_disc_update ?V co g d opt = Inr (g1, d1)" by simp
    obtain h3 r3 where cc: "add_client_counters_store ?h2 ?a (co_counters co) = (h3, r3)"
      by (cases "add_client_counters_store ?h2 ?a (co_counters co)")
    note f3 = add_client_counters_store_fresh [OF cc f2]
    note v3 = add_client_counters_store_value [OF cc f2, unfolded v2]
    show ?thesis
    proof (cases r3)
      case (Some e)
      with v3 have k3: "add_client_counters (counters ?V) (co_counters co) = Inl e" by simp
      from assms a Inr gd cc Some have "h' = h3" "result = Inl e"
        by (auto simp: server_computation_store_def split_beta Let_def)
      with f3 duV k3 show ?thesis by (simp add: server_computation_def)
    next
      case None
      from v3 None obtain c3 where
        k3: "add_client_counters (counters ?V) (co_counters co) = Inr c3"
        and s3: "state_value h3 ?a = ?V\<lparr>counters := c3\<rparr>" by auto
      let ?h4 = "set_aggregation_state h3 ?a nas"
      note f4 = set_aggregation_state_fresh [OF f3, of nas]
      from set_aggregation_state_value [OF f3, of nas] s3
      have s4: "state_value ?h4 ?a = ?V\<lparr>counters := c3, aggregation_state := nas\<rparr>"
        by simp
      let ?step = "create_train_generator_fn env (WassersteinGanLossFns env (Num 10))
                     (SGD (Num (5 / 1000)))"
      show ?thesis
      proof (cases "server_loop ?step g1 d1 ds 0")
        case (Inl e)
        with assms a Inr gd cc None have "h' = ?h4" "result = Inl e"
          by (auto simp: server_computation_store_def split_beta Let_def)
        with f4 duV k3 Inl show ?thesis by (simp add: server_computation_def)
      next
        case loop: (Inr gdn)
        obtain g2 d2 n where gdn: "gdn = (g2, d2, n)" by (cases gdn)
        obtain h5 r5 where c5:
          "counter_add_store ?h4 ?a ''num_generator_train_examples'' n = (h5, r5)"
          by (cases "counter_add_store ?h4 ?a ''num_generator_train_examples'' n")
        note f5 = counter_add_store_fresh [OF c5 f4]
        note v5 = counter_add_store_value [OF c5 f4, unfolded s4]
        show ?thesis
        proof (cases r5)
          case (Some e)
          with v5 have k5: "counter_add c3 ''num_generator_train_examples'' n = Inl e"
            by simp
          from assms a Inr gd cc None loop gdn c5 Some have "h' = h5" "result = Inl e"
            by (auto simp: server_computation_store_def split_beta Let_def)
          with f5 duV k3 loop gdn k5 show ?thesis by (simp add: server_computation_def)
        next
          case r5: None
          from v5 r5 obtain c5' where
            k5: "counter_add c3 ''num_generator_train_examples'' n = Inr c5'"
            and s5: "state_value h5 ?a
                       = ?V\<lparr>counters := c5', aggregation_state := nas\<rparr>"
            by auto
          obtain h6 r6 where c6: "counter_add_store h5 ?a ''num_rounds'' 1 = (h6, r6)"
            by (cases "counter_add_store h5 ?a ''num_rounds'' 1")
          note f6 = counter_add_store_fresh [OF c6 f5]
          note v6 = counter_add_store_value [OF c6 f5, unfolded s5]
          show ?thesis
          proof (cases r6)
            case (Some e)
            with v6 have k6: "counter_add c5' ''num_rounds'' 1 = Inl e" by simp
            from assms a Inr gd cc None loop gdn c5 r5 c6 Some
            have "h' = h6" "result = Inl e"
              by (auto simp: server_computation_store_def split_beta Let_def)
            with f6 duV k3 loop gdn k5 k6 show ?thesis by (simp add: server_computation_def)
          next
            case r6: None
            from v6 r6 obtain c6' where k6: "counter_add c5' ''num_rounds'' 1 = Inr c6'"
              and s6: "state_value h6 ?a
                         = ?V\<lparr>counters := c6', aggregation_state := nas\<rparr>"
              by auto
            let ?h7 = "fst (alloc_weight_list h6 (weights_read g2))"
            let ?h8 = "set_generator_weights ?h7 ?a (snd (alloc_weight_list h6 (weights_read g2)))"
            let ?h9 = "fst (alloc_weight_list ?h8 (weights_read d2))"
            let ?h10 = "set_discriminator_weights ?h9 ?a
                          (snd (alloc_weight_list ?h8 (weights_read d2)))"
            have f10: "writes_fresh h ?h10 ?a"
              by (intro set_discriminator_weights_fresh alloc_weight_list_fresh
                    set_generator_weights_fresh f6)
            from snapshot_value [OF f6, of "weights_read g2" "weights_read d2"] s6
            have s10: "state_value ?h10 ?a
                = ?V\<lparr>counters := c6', aggregation_state := nas,
                       generator_weights := weights_read g2,
                       discriminator_weights := weights_read d2\<rparr>" by simp
            from assms a Inr gd cc None loop gdn c5 r5 c6 r6
            have res: "h' = ?h10" "result = Inr (?a, g2, d2)"
              by (simp_all add: server_computation_store_def split_beta Let_def)
            from duV k3 loop gdn k5 k6
            have "server_computation env ?V ds co g d opt f nas
                = Inr (?V\<lparr>counters := c6', aggregation_state := nas,
                       generator_weights := weights_read g2,
                       discriminator_weights := weights_read d2\<rparr>, g2, d2)"
              by (simp add: server_computation_def)
            with f10 s10 res show ?thesis by simp
          qed
        qed
      qed
    qed
  qed
qed

lemma nth_of_prefix: "i < length xs \<Longrightarrow> take (length xs) ys = xs \<Longrightarrow> ys ! i = xs ! i"
  by (metis nth_take)

text \<open>
  Claim C5. A call of \<open>server_computation\<close> writes no object that existed before it: after
  the call, whether it returned or raised, the input \<open>ServerState\<close> instance has the fields
  it had, and its counters dictionary and its two weight lists have the contents they had.
  When the call returns, the returned instance is a new object, its counters dictionary
  is a new dictionary, and its value is the state the value-passing \<open>server_computation\<close>
  computes.
\<close>

theorem server_computation_leaves_input:
  assumes "server_computation_store env h server_state gen_inputs_ds client_output generator
             discriminator opt f new_aggregation_state = (h', result)"
    and "allocated h server_state"
  shows "objects h' ! server_state = objects h ! server_state \<and>
         dicts h' ! obj_counters (objects h ! server_state)
           = dicts h ! obj_counters (objects h ! server_state) \<and>
         weight_lists h' ! obj_generator_weights (objects h ! server_state)
           = weight_lists h ! obj_generator_weights (objects h ! server_state) \<and>
         weight_lists h' ! obj_discriminator_weights (objects h ! server_state)
           = weight_lists h ! obj_discriminator_weights (objects h ! server_state) \<and>
         state_value h' server_state = state_value h server_state \<and>
         take (length (objects h)) (objects h') = objects h \<and>
         take (length (dicts h)) (dicts h') = dicts h \<and>
         take (length (weight_lists h)) (weight_lists h') = weight_lists h \<and>
         (\<forall>a' g' d'. result = Inr (a', g', d') \<longrightarrow>
            a' \<noteq> server_state \<and> a' < length (objects h') \<and>
            obj_counters (objects h' ! a') \<noteq> obj_counters (objects h ! server_state) \<and>
            obj_counters (objects h' ! a') < length (dicts h') \<and>
            server_computation env (state_value h server_state) gen_inputs_ds client_output
              generator discriminator opt f new_aggregation_state
              = Inr (state_value h' a', g', d'))"
proof -
  note run = server_computation_store_run [OF assms(1)]
  from run have fresh: "writes_fresh h h' (length (objects h))" by simp
  then have to: "take (length (objects h)) (objects h') = objects h"
    and td: "take (length (dicts h)) (dicts h') = dicts h"
    and tw: "take (length (weight_lists h)) (weight_lists h') = weight_lists h"
    by (simp_all add: writes_fresh_def)
  from assms(2) have v: "server_state < length (objects h)"
    "obj_counters (objects h ! server_state) < length (dicts h)"
    "obj_generator_weights (objects h ! server_state) < length (weight_lists h)"
    "obj_discriminator_weights (objects h ! server_state) < length (weight_lists h)"
    by (simp_all add: allocated_def)
  note o = nth_of_prefix [OF v(1) to]
  note c = nth_of_prefix [OF v(2) td]
  note g = nth_of_prefix [OF v(3) tw]
  note d = nth_of_prefix [OF v(4) tw]
  from o c g d have sv: "state_value h' server_state = state_value h server_state"
    by (simp add: state_value_def)
  have ret: "a' \<noteq> server_state \<and> a' < length (objects h') \<and>
            obj_counters (objects h' ! a') \<noteq> obj_counters (objects h ! server_state) \<and>
            obj_counters (objects h' ! a') < length (dicts h') \<and>
            server_computation env (state_value h server_state) gen_inputs_ds client_output
              generator discriminator opt f new_aggregation_state
              = Inr (state_value h' a', g', d')"
    if r: "result = Inr (a', g', d')" for a' g' d'
  proof -
    from run r have a': "a' = length (objects h)" by simp
    from run r have "server_computation env (state_value h server_state) gen_inputs_ds
        client_output generator discriminator opt f new_aggregation_state
              = Inr (state_value h' a', g', d')" by simp
    with fresh a' v show ?thesis by (auto simp: writes_fresh_def)
  qed
  from o c g d sv to td tw ret show ?thesis by blast
qed

theorem server_computation_leaves_input_witness:
  "allocated demo_store 0 \<and>
   objects (fst (server_computation_store demo_env demo_store 0 [[1, 2], [3]]
      zero_client_output demo_generator demo_discriminator (SGD (Num 1))
      (\<lambda>g d x. Inl CapabilityError) ())) ! 0 = objects demo_store ! 0 \<and>
   dicts (fst (server_computation_store demo_env demo_store 0 [[1, 2], [3]]
      zero_client_output demo_generator demo_discriminator (SGD (Num 1))
      (\<lambda>g d x. Inl CapabilityError) ())) ! 0 = counters demo_state \<and>
   state_value (fst (server_computation_store demo_env demo_store 0 [[1, 2], [3]]
      zero_client_output demo_generator demo_discriminator (SGD (Num 1))
      (\<lambda>g d x. Inl CapabilityError) ())) 0 = demo_state \<and>
   (\<exists>g' d'. snd (server_computation_store demo_env demo_store 0 [[1, 2], [3]]
      zero_client_output demo_generator demo_discriminator (SGD (Num 1))
      (\<lambda>g d x. Inl CapabilityError) ()) = Inr (1, g', d')) \<and>
   map_of (counters (state_value (fst (server_computation_store demo_env demo_store 0
      [[1, 2], [3]] zero_client_output demo_generator demo_discriminator (SGD (Num 1))
      (\<lambda>g d x. Inl CapabilityError) ())) 1)) ''num_rounds'' = Some 5"
proof -
  let ?f = "\<lambda>(g :: keras_model) (d :: keras_model) (x :: nat batch).
              (Inl CapabilityError :: error + keras_model \<times> keras_model \<times> int32)"
  let ?R = "server_computation_store demo_env demo_store 0 [[1, 2], [3]]
      zero_client_output demo_generator demo_discriminator (SGD (Num 1)) ?f ()"
  have al: "allocated demo_store 0"
    by (simp add: allocated_def demo_store_def)
  have sv0: "state_value demo_store 0 = demo_state"
    by (simp add: state_value_def demo_store_def demo_state_def)
  have pair: "?R = (fst ?R, snd ?R)" by simp
  note T = server_computation_leaves_input [OF pair al, unfolded sv0]
  note S = server_computation_store_run [OF pair, unfolded sv0]
  have dist: "distinct (map fst (co_counters zero_client_output))"
    and sub: "fst ` set (co_counters zero_client_output) \<subseteq> fst ` set (counters demo_state)"
    and ex: "''num_generator_train_examples'' \<in> fst ` set (counters demo_state)"
    and ro: "''num_rounds'' \<in> fst ` set (counters demo_state)"
    and r: "map_of (counters demo_state) ''num_rounds'' = Some 4"
    by (simp_all add: zero_client_output_def demo_state_def)
  from server_computation_total [OF demo_disc_update [OF refl] demo_server_loop dist sub ex ro,
      where f = ?f and nas = "()"]
  obtain st' g2 d2 where
    run: "server_computation demo_env demo_state [[1, 2], [3]] zero_client_output
            demo_generator demo_discriminator (SGD (Num 1)) ?f () = Inr (st', g2, d2)"
    and vals: "\<And>k. map_of (counters st') k =
              map_option (\<lambda>old. old + client_counter zero_client_output k
                                    + round_increment [[1, 2], [3 :: nat]] k)
                (map_of (counters demo_state) k)" by blast
  from vals [of "''num_rounds''"] r have five: "map_of (counters st') ''num_rounds'' = Some 5"
    by (simp add: client_counter_def zero_client_output_def round_increment_def)
  from S run obtain a' where res: "snd ?R = Inr (a', g2, d2)"
    and st': "state_value (fst ?R) a' = st'"
    by (cases "snd ?R") auto
  from S res have a': "a' = 1" by (simp add: demo_store_def)
  from T al five res st' a' show ?thesis
    by (simp add: demo_store_def)
qed

end
